theory Spec2Isabelle
  imports Complex_Main "HOL-Library.Multiset"
begin

section \<open>Text, characters and the regular expressions of the log parser\<close>

text \<open>
  The pipeline of \<^verbatim>\<open>extraction.py\<close> reads a mailbox log, keeps the sender and the
  date of every \<^verbatim>\<open>From\<close> line, writes the records to a document store, copies them
  to a relational table and runs ten aggregate queries.

  Text is modelled as \<^typ>\<open>string\<close>, one \<^typ>\<open>char\<close> per code point, so the model
  covers text whose code points are below 256. The three character classes are the ones
  Python's \<^verbatim>\<open>re\<close> uses for \<^verbatim>\<open>str\<close> patterns, restricted to that range:
  \<^verbatim>\<open>\d\<close> is 0-9; \<^verbatim>\<open>\s\<close> is 9-13, 28-32, 133 and 160; \<^verbatim>\<open>\w\<close> is the
  alphanumeric code points and the underscore.
\<close>

definition is_digit :: "char \<Rightarrow> bool" where
  "is_digit c = (let n = (of_char c :: nat) in 48 \<le> n \<and> n \<le> 57)"

definition is_space :: "char \<Rightarrow> bool" where
  "is_space c = (let n = (of_char c :: nat) in
     (9 \<le> n \<and> n \<le> 13) \<or> (28 \<le> n \<and> n \<le> 32) \<or> n = 133 \<or> n = 160)"

definition is_word :: "char \<Rightarrow> bool" where
  "is_word c = (let n = (of_char c :: nat) in
     (48 \<le> n \<and> n \<le> 57) \<or> (65 \<le> n \<and> n \<le> 90) \<or> n = 95 \<or> (97 \<le> n \<and> n \<le> 122)
     \<or> n = 170 \<or> n = 178 \<or> n = 179 \<or> n = 181 \<or> n = 185 \<or> n = 186
     \<or> (188 \<le> n \<and> n \<le> 190) \<or> (192 \<le> n \<and> n \<le> 214)
     \<or> (216 \<le> n \<and> n \<le> 246) \<or> (248 \<le> n \<and> n \<le> 255))"

text \<open>\<^verbatim>\<open>str.lower\<close> on the ASCII letters, the only ones the month and weekday names use.\<close>

definition lower :: "char \<Rightarrow> char" where
  "lower c = (let n = (of_char c :: nat) in if 65 \<le> n \<and> n \<le> 90 then char_of (n + 32) else c)"

text \<open>
  A regular expression, with the constructs the two patterns of the program need: a
  character class, sequence, alternation, a greedy bounded repetition of a class
  (\<^verbatim>\<open>+\<close> is \<open>Rep 1 None\<close>, \<^verbatim>\<open>{3}\<close> is \<open>Rep 3 (Some 3)\<close>) and a capture group.
\<close>

datatype cls = Chr char | ChrI char | Digit | Word | Space | NonSpace | Range char char

datatype rx = Eps | Atom cls | Seq rx rx | Alt rx rx | Rep nat "nat option" cls | Group string rx

fun cls_ok :: "cls \<Rightarrow> char \<Rightarrow> bool" where
  "cls_ok (Chr a) c = (c = a)"
| "cls_ok (ChrI a) c = (lower c = lower a)"
| "cls_ok Digit c = is_digit c"
| "cls_ok Word c = is_word c"
| "cls_ok Space c = is_space c"
| "cls_ok NonSpace c = (\<not> is_space c)"
| "cls_ok (Range a b) c = ((of_char a :: nat) \<le> of_char c \<and> (of_char c :: nat) \<le> of_char b)"

fun seqs :: "rx list \<Rightarrow> rx" where
  "seqs [] = Eps"
| "seqs [r] = r"
| "seqs (r # rs) = Seq r (seqs rs)"

fun alts :: "rx list \<Rightarrow> rx" where
  "alts [] = Eps"
| "alts [r] = r"
| "alts (r # rs) = Alt r (alts rs)"

definition lit :: "string \<Rightarrow> rx" where
  "lit s = seqs (map (\<lambda>c. Atom (Chr c)) s)"

definition lit_i :: "string \<Rightarrow> rx" where
  "lit_i s = seqs (map (\<lambda>c. Atom (ChrI c)) s)"

type_synonym groups = "(string \<times> string) list"

text \<open>
  The matcher is the backtracking one of Python's \<^verbatim>\<open>re\<close>: \<open>rx_run r g s\<close> lists, in
  the order a backtracking search meets them, every way \<open>r\<close> matches a prefix of \<open>s\<close>,
  each as the groups captured so far and the text left. An alternation tries its left
  branch first; a repetition tries the longest run first and gives characters back one
  at a time. The head of the list is the match \<^verbatim>\<open>re\<close> reports.
\<close>

fun rx_run :: "rx \<Rightarrow> groups \<Rightarrow> string \<Rightarrow> (groups \<times> string) list" where
  "rx_run Eps g s = [(g, s)]"
| "rx_run (Atom c) g s =
     (case s of [] \<Rightarrow> [] | x # xs \<Rightarrow> if cls_ok c x then [(g, xs)] else [])"
| "rx_run (Seq a b) g s = concat (map (\<lambda>(g', s'). rx_run b g' s') (rx_run a g s))"
| "rx_run (Alt a b) g s = rx_run a g s @ rx_run b g s"
| "rx_run (Rep lo hi c) g s =
     (let n = length (takeWhile (cls_ok c) s);
          m = (case hi of None \<Rightarrow> n | Some h \<Rightarrow> min h n)
      in map (\<lambda>k. (g, drop k s)) (rev [lo ..< Suc m]))"
| "rx_run (Group name a) g s =
     map (\<lambda>(g', s'). (g' @ [(name, take (length s - length s') s)], s')) (rx_run a g s)"

text \<open>\<^verbatim>\<open>pattern.match(s)\<close>: the first match that starts at the first character.\<close>

definition rx_match :: "rx \<Rightarrow> string \<Rightarrow> (groups \<times> string) option" where
  "rx_match r s = (case rx_run r [] s of [] \<Rightarrow> None | m # _ \<Rightarrow> Some m)"

text \<open>\<^verbatim>\<open>pattern.search(s)\<close>: the first match at the leftmost position that has one.\<close>

fun rx_search :: "rx \<Rightarrow> string \<Rightarrow> groups option" where
  "rx_search r [] = map_option fst (rx_match r [])"
| "rx_search r (c # cs) =
     (case rx_match r (c # cs) of Some m \<Rightarrow> Some (fst m) | None \<Rightarrow> rx_search r cs)"

text \<open>
  The pattern of \<^verbatim>\<open>extract_and_transform\<close>:
  \<^verbatim>\<open>From (\S+) (\w{3}\s+\w{3}\s+\d{1,2}\s+\d{2}:\d{2}:\d{2}\s+\d{4})\<close>
\<close>

definition pattern :: rx where
  "pattern = seqs
     [lit ''From '', Group ''1'' (Rep 1 None NonSpace), lit '' '',
      Group ''2'' (seqs
        [Rep 3 (Some 3) Word, Rep 1 None Space, Rep 3 (Some 3) Word, Rep 1 None Space,
         Rep 1 (Some 2) Digit, Rep 1 None Space,
         Rep 2 (Some 2) Digit, lit '':'', Rep 2 (Some 2) Digit, lit '':'', Rep 2 (Some 2) Digit,
         Rep 1 None Space, Rep 4 (Some 4) Digit])]"

text \<open>\<^verbatim>\<open>match = pattern.search(line)\<close> followed by \<^verbatim>\<open>match.groups()\<close>.\<close>

definition pattern_search :: "string \<Rightarrow> (string \<times> string) option" where
  "pattern_search line =
     (case rx_search pattern line of
        None \<Rightarrow> None
      | Some g \<Rightarrow> (case (map_of g ''1'', map_of g ''2'') of
                    (Some email, Some date_str) \<Rightarrow> Some (email, date_str)
                  | _ \<Rightarrow> None))"

section \<open>Dates: parsing and formatting\<close>

datatype error =
  ValueError | TypeError | KeyError | FileNotFoundError
  | BulkWriteError | IntegrityError | ProgrammingError

record datetime =
  year :: nat
  month :: nat
  day :: nat
  hour :: nat
  minute :: nat
  second :: nat

definition is_leap :: "nat \<Rightarrow> bool" where
  "is_leap y = (y mod 4 = 0 \<and> (y mod 100 \<noteq> 0 \<or> y mod 400 = 0))"

definition days_in_month :: "nat \<Rightarrow> nat \<Rightarrow> nat" where
  "days_in_month y m =
     (if m = 2 then (if is_leap y then 29 else 28)
      else if m = 4 \<or> m = 6 \<or> m = 9 \<or> m = 11 then 30 else 31)"

text \<open>
  The constructor \<^verbatim>\<open>datetime(year, month, day, hour, minute, second)\<close>: it raises
  \<^verbatim>\<open>ValueError\<close> unless the fields name a date between the years 1 and 9999 and a
  time of day.
\<close>

definition datetime_new :: "nat \<Rightarrow> nat \<Rightarrow> nat \<Rightarrow> nat \<Rightarrow> nat \<Rightarrow> nat \<Rightarrow> error + datetime" where
  "datetime_new y mo d h mi s =
     (if 1 \<le> y \<and> y \<le> 9999 \<and> 1 \<le> mo \<and> mo \<le> 12 \<and> 1 \<le> d \<and> d \<le> days_in_month y mo
         \<and> h \<le> 23 \<and> mi \<le> 59 \<and> s \<le> 59
      then Inr \<lparr>year = y, month = mo, day = d, hour = h, minute = mi, second = s\<rparr>
      else Inl ValueError)"

definition digit :: "nat \<Rightarrow> char" where
  "digit k = char_of (48 + k)"

definition digit_value :: "char \<Rightarrow> nat" where
  "digit_value c = of_char c - 48"

text \<open>\<^verbatim>\<open>int(s)\<close> on the texts the date groups capture: blanks around a run of digits.\<close>

definition strip :: "string \<Rightarrow> string" where
  "strip s = rev (dropWhile is_space (rev (dropWhile is_space s)))"

definition py_int :: "string \<Rightarrow> error + nat" where
  "py_int s =
     (let t = strip s
      in if t \<noteq> [] \<and> list_all is_digit t
         then Inr (foldl (\<lambda>acc c. 10 * acc + digit_value c) 0 t)
         else Inl ValueError)"

text \<open>\<^verbatim>\<open>list.index\<close>, which raises \<^verbatim>\<open>ValueError\<close> when the element is absent.\<close>

fun list_index :: "'a list \<Rightarrow> 'a \<Rightarrow> error + nat" where
  "list_index [] x = Inl ValueError"
| "list_index (y # ys) x =
     (if y = x then Inr 0 else (case list_index ys x of Inl e \<Rightarrow> Inl e | Inr i \<Rightarrow> Inr (Suc i)))"

text \<open>The abbreviated names of the C locale, as \<^verbatim>\<open>LocaleTime\<close> keeps them.\<close>

definition a_weekday :: "string list" where
  "a_weekday = [''mon'', ''tue'', ''wed'', ''thu'', ''fri'', ''sat'', ''sun'']"

definition a_month :: "string list" where
  "a_month = [[], ''jan'', ''feb'', ''mar'', ''apr'', ''may'', ''jun'',
              ''jul'', ''aug'', ''sep'', ''oct'', ''nov'', ''dec'']"

text \<open>
  The table of \<^verbatim>\<open>TimeRE\<close> in CPython's \<^verbatim>\<open>_strptime\<close>, for the directives the two
  formats of the program use; each is a named group:
  \<^verbatim>\<open>d: 3[0-1]|[1-2]\d|0[1-9]|[1-9]| [1-9]   H: 2[0-3]|[0-1]\d|\d
  M: [0-5]\d|\d   S: 6[0-1]|[0-5]\d|\d   Y: \d\d\d\d\<close>
  and \<^verbatim>\<open>a\<close>, \<^verbatim>\<open>b\<close> the alternation of the names. The expression is compiled
  with \<^verbatim>\<open>IGNORECASE\<close>. Any other directive is outside this model.
\<close>

definition directive :: "char \<Rightarrow> rx option" where
  "directive c =
     (if c = CHR ''d'' then Some (Group ''d'' (alts
        [Seq (Atom (Chr CHR ''3'')) (Atom (Range CHR ''0'' CHR ''1'')),
         Seq (Atom (Range CHR ''1'' CHR ''2'')) (Atom Digit),
         Seq (Atom (Chr CHR ''0'')) (Atom (Range CHR ''1'' CHR ''9'')),
         Atom (Range CHR ''1'' CHR ''9''),
         Seq (Atom (Chr CHR '' '')) (Atom (Range CHR ''1'' CHR ''9''))]))
      else if c = CHR ''H'' then Some (Group ''H'' (alts
        [Seq (Atom (Chr CHR ''2'')) (Atom (Range CHR ''0'' CHR ''3'')),
         Seq (Atom (Range CHR ''0'' CHR ''1'')) (Atom Digit),
         Atom Digit]))
      else if c = CHR ''M'' then Some (Group ''M'' (alts
        [Seq (Atom (Range CHR ''0'' CHR ''5'')) (Atom Digit), Atom Digit]))
      else if c = CHR ''S'' then Some (Group ''S'' (alts
        [Seq (Atom (Chr CHR ''6'')) (Atom (Range CHR ''0'' CHR ''1'')),
         Seq (Atom (Range CHR ''0'' CHR ''5'')) (Atom Digit),
         Atom Digit]))
      else if c = CHR ''Y'' then Some (Group ''Y'' (seqs [Atom Digit, Atom Digit, Atom Digit, Atom Digit]))
      else if c = CHR ''a'' then Some (Group ''a'' (alts (map lit_i a_weekday)))
      else if c = CHR ''b'' then Some (Group ''b'' (alts (map lit_i (tl a_month))))
      else None)"

text \<open>
  \<^verbatim>\<open>TimeRE.pattern\<close>: every run of whitespace in the format becomes \<^verbatim>\<open>\s+\<close>, every
  directive its expression, every other character itself. So one blank and two
  blanks in a format give the same expression.
\<close>

function timere_pattern :: "string \<Rightarrow> rx list option" where
  "timere_pattern [] = Some []"
| "timere_pattern (c # cs) =
     (if is_space c then
        map_option ((#) (Rep 1 None Space)) (timere_pattern (dropWhile is_space cs))
      else if c = CHR ''%'' then
        (case cs of
           [] \<Rightarrow> None
         | d # rest \<Rightarrow>
             (case directive d of
                None \<Rightarrow> None
              | Some r \<Rightarrow> map_option ((#) r) (timere_pattern rest)))
      else map_option ((#) (Atom (ChrI c))) (timere_pattern cs))"
  by pat_completeness auto
termination
  by (relation "measure length") (auto simp: less_Suc_eq_le length_dropWhile_le)

text \<open>
  \<^verbatim>\<open>datetime.strptime(data_string, format)\<close>. The expression must match from the start
  and leave nothing over; the groups are converted and handed to the constructor.
  Every failure is a \<^verbatim>\<open>ValueError\<close>.
\<close>

definition group_int :: "groups \<Rightarrow> string \<Rightarrow> nat \<Rightarrow> error + nat" where
  "group_int found k dflt = (case map_of found k of None \<Rightarrow> Inr dflt | Some t \<Rightarrow> py_int t)"

definition group_month :: "groups \<Rightarrow> error + nat" where
  "group_month found =
     (case map_of found ''b'' of None \<Rightarrow> Inr 1 | Some b \<Rightarrow> list_index a_month (map lower b))"

text \<open>An exception raised by the first computation skips the rest.\<close>

definition and_then :: "error + 'a \<Rightarrow> ('a \<Rightarrow> error + 'b) \<Rightarrow> error + 'b" where
  "and_then r f = (case r of Inl e \<Rightarrow> Inl e | Inr x \<Rightarrow> f x)"

definition strptime :: "string \<Rightarrow> string \<Rightarrow> error + datetime" where
  "strptime data_string format =
     (case timere_pattern format of
        None \<Rightarrow> Inl ValueError
      | Some format_regex \<Rightarrow>
          (case rx_match (seqs format_regex) data_string of
             None \<Rightarrow> Inl ValueError
           | Some (found, rest) \<Rightarrow>
               (if rest \<noteq> [] then Inl ValueError
                else
                  and_then (group_int found ''Y'' 1900) (\<lambda>y.
                  and_then (group_month found) (\<lambda>mo.
                  and_then (group_int found ''d'' 1) (\<lambda>d.
                  and_then (group_int found ''H'' 0) (\<lambda>h.
                  and_then (group_int found ''M'' 0) (\<lambda>mi.
                  and_then (group_int found ''S'' 0) (\<lambda>s.
                  datetime_new y mo d h mi s)))))))))"

text \<open>
  \<^verbatim>\<open>date_obj.strftime(format)\<close>. CPython 3.11 hands the directives to the C library's
  \<^verbatim>\<open>strftime\<close>. Month, day, hour, minute and second are two digits everywhere. The
  year is not: glibc prints \<^verbatim>\<open>%Y\<close> as the plain number (year 5 is \<^verbatim>\<open>5\<close>), other C
  libraries and later CPython versions pad it to four digits (\<^verbatim>\<open>0005\<close>). The model
  takes the behaviour as a parameter.
\<close>

datatype platform = Glibc | Zero_padding

function show_nat :: "nat \<Rightarrow> string" where
  "show_nat n = (if n < 10 then [digit n] else show_nat (n div 10) @ [digit (n mod 10)])"
  by pat_completeness auto
termination
  by (relation "measure id") auto

definition zfill :: "nat \<Rightarrow> string \<Rightarrow> string" where
  "zfill w s = replicate (w - length s) CHR ''0'' @ s"

definition render :: "platform \<Rightarrow> datetime \<Rightarrow> char \<Rightarrow> string" where
  "render p dt c =
     (if c = CHR ''Y'' then
        (case p of Glibc \<Rightarrow> show_nat (year dt) | Zero_padding \<Rightarrow> zfill 4 (show_nat (year dt)))
      else if c = CHR ''m'' then zfill 2 (show_nat (month dt))
      else if c = CHR ''d'' then zfill 2 (show_nat (day dt))
      else if c = CHR ''H'' then zfill 2 (show_nat (hour dt))
      else if c = CHR ''M'' then zfill 2 (show_nat (minute dt))
      else if c = CHR ''S'' then zfill 2 (show_nat (second dt))
      else if c = CHR ''%'' then ''%''
      else [CHR ''%'', c])"

fun strftime :: "platform \<Rightarrow> datetime \<Rightarrow> string \<Rightarrow> string" where
  "strftime p dt [] = []"
| "strftime p dt [c] = [c]"
| "strftime p dt (c # d # rest) =
     (if c = CHR ''%'' then render p dt d @ strftime p dt rest
      else c # strftime p dt (d # rest))"

section \<open>Task 1 and 2: extract and transform\<close>

text \<open>
  A dictionary of the program is an association list from keys to values; the values
  that occur are strings, \<^verbatim>\<open>None\<close> and the object identifiers of the document store.
\<close>

datatype val = VNull | VStr string | VOid nat

type_synonym doc = "(string \<times> val) list"

text \<open>
  Reading a text file line by line: Python translates \<^verbatim>\<open>\r\n\<close> and \<^verbatim>\<open>\r\<close> to
  \<^verbatim>\<open>\n\<close> and yields each line with its terminator.
\<close>

fun universal_newlines :: "string \<Rightarrow> string" where
  "universal_newlines [] = []"
| "universal_newlines [c] = (if c = CHR 0x0D then [CHR 0x0A] else [c])"
| "universal_newlines (c # d # cs) =
     (if c = CHR 0x0D \<and> d = CHR 0x0A then CHR 0x0A # universal_newlines cs
      else if c = CHR 0x0D then CHR 0x0A # universal_newlines (d # cs)
      else c # universal_newlines (d # cs))"

fun lines_from :: "string \<Rightarrow> string \<Rightarrow> string list" where
  "lines_from cur [] = (if cur = [] then [] else [cur])"
| "lines_from cur (c # cs) =
     (if c = CHR 0x0A then (cur @ [c]) # lines_from [] cs else lines_from (cur @ [c]) cs)"

definition file_lines :: "string \<Rightarrow> string list" where
  "file_lines content = lines_from [] (universal_newlines content)"

text \<open>
  The body of the loop for one line: \<^verbatim>\<open>try\<close> the first format, on \<^verbatim>\<open>ValueError\<close>
  the second, whose exception nothing catches.
\<close>

definition parse_date :: "string \<Rightarrow> error + datetime" where
  "parse_date date_str =
     (case strptime date_str ''%a %b %d %H:%M:%S %Y'' of
        Inl ValueError \<Rightarrow> strptime date_str ''%a %b  %d %H:%M:%S %Y''
      | Inl e \<Rightarrow> Inl e
      | Inr date_obj \<Rightarrow> Inr date_obj)"

fun extract_loop :: "platform \<Rightarrow> string list \<Rightarrow> doc list \<Rightarrow> error + doc list" where
  "extract_loop p [] transformed_data = Inr transformed_data"
| "extract_loop p (line # rest) transformed_data =
     (case pattern_search line of
        None \<Rightarrow> extract_loop p rest transformed_data
      | Some (email, date_str) \<Rightarrow>
          (case parse_date date_str of
             Inl e \<Rightarrow> Inl e
           | Inr date_obj \<Rightarrow>
               (let formatted_date = strftime p date_obj ''%Y-%m-%d %H:%M:%S''
                in extract_loop p rest
                     (transformed_data @ [[(''email'', VStr email), (''date'', VStr formatted_date)]]))))"

text \<open>
  The file system gives the decoded text of a file, or nothing for a path that
  \<^verbatim>\<open>open\<close> cannot find; other failures of reading are not modelled.
\<close>

type_synonym files = "string \<rightharpoonup> string"

definition extract_and_transform :: "platform \<Rightarrow> files \<Rightarrow> string \<Rightarrow> error + doc list" where
  "extract_and_transform p fs log_file =
     (case fs log_file of
        None \<Rightarrow> Inl FileNotFoundError
      | Some content \<Rightarrow> extract_loop p (file_lines content) [])"

section \<open>The two stores and the standard output\<close>

text \<open>
  The program works on three things outside itself: the file system, the collection
  \<^verbatim>\<open>log_analysis.user_history\<close> of the document store and the table
  \<^verbatim>\<open>user_history\<close> of the relational file. They are the fields of one state, which
  each function takes and returns together with its result or exception. Both stores
  are taken to be reachable. A row of the table holds two texts: the columns are
  \<^verbatim>\<open>TEXT NOT NULL\<close> and the program binds nothing else. \<open>seq\<close> is the counter that
  \<^verbatim>\<open>AUTOINCREMENT\<close> keeps for the table; deleting rows does not reset it.
  \<open>next_oid\<close> stands for the generator of fresh object identifiers.
\<close>

record row =
  id_col :: nat
  email_col :: string
  date_col :: string

datatype sqlval = SNull | SInt int | SReal real | SText string

datatype printed = Line string | Row "sqlval list"

record world =
  files :: files
  collection :: "doc list"
  next_oid :: nat
  table :: "row list option"
  seq :: nat
  stdout :: "printed list"

definition print :: "printed \<Rightarrow> world \<Rightarrow> world" where
  "print x w = w\<lparr>stdout := stdout w @ [x]\<rparr>"

section \<open>Task 3: save to the document store\<close>

text \<open>\<^verbatim>\<open>collection.delete_many({})\<close> removes every document.\<close>

definition delete_many :: "world \<Rightarrow> world" where
  "delete_many w = w\<lparr>collection := []\<rparr>"

text \<open>
  \<^verbatim>\<open>collection.insert_many(documents)\<close> of pymongo. An empty list is refused with
  \<^verbatim>\<open>TypeError\<close> (documents must be a non-empty list) before anything is sent. Otherwise
  every dictionary without an \<^verbatim>\<open>_id\<close> is given a fresh one, in place, and the documents
  are inserted in order; the first one whose \<^verbatim>\<open>_id\<close> is already in the collection stops
  the batch with \<^verbatim>\<open>BulkWriteError\<close>, the earlier ones staying inserted.
\<close>

fun assign_ids :: "doc list \<Rightarrow> nat \<Rightarrow> doc list \<times> nat" where
  "assign_ids [] n = ([], n)"
| "assign_ids (d # ds) n =
     (case map_of d ''_id'' of
        None \<Rightarrow> (let (ds', n') = assign_ids ds (Suc n) in ((d @ [(''_id'', VOid n)]) # ds', n'))
      | Some v \<Rightarrow> (let (ds', n') = assign_ids ds n in (d # ds', n')))"

fun bulk_insert :: "doc list \<Rightarrow> doc list \<Rightarrow> (error + unit) \<times> doc list" where
  "bulk_insert [] coll = (Inr (), coll)"
| "bulk_insert (d # ds) coll =
     (if map_of d ''_id'' \<in> set (map (\<lambda>x. map_of x ''_id'') coll)
      then (Inl BulkWriteError, coll)
      else bulk_insert ds (coll @ [d]))"

definition insert_many :: "doc list \<Rightarrow> world \<Rightarrow> (error + doc list) \<times> world" where
  "insert_many documents w =
     (if documents = [] then (Inl TypeError, w)
      else
        (let (documents', n') = assign_ids documents (next_oid w);
             (r, coll') = bulk_insert documents' (collection w);
             w' = w\<lparr>collection := coll', next_oid := n'\<rparr>
         in (case r of Inl e \<Rightarrow> (Inl e, w') | Inr u \<Rightarrow> (Inr documents', w'))))"

text \<open>
  \<^verbatim>\<open>save_to_mongodb(data)\<close>. The result is the list \<^verbatim>\<open>data\<close> as the call leaves it:
  the same dictionaries, now with their \<^verbatim>\<open>_id\<close>.
\<close>

definition save_to_mongodb :: "doc list \<Rightarrow> world \<Rightarrow> (error + doc list) \<times> world" where
  "save_to_mongodb data w =
     (let w1 = delete_many w;
          (r, w2) = insert_many data w1
      in (case r of
            Inl e \<Rightarrow> (Inl e, w2)
          | Inr data' \<Rightarrow> (Inr data', print (Line ''Data successfully inserted into MongoDB.'') w2)))"

section \<open>Task 4: transfer to the relational table\<close>

text \<open>\<^verbatim>\<open>rec['email']\<close>: a missing key raises \<^verbatim>\<open>KeyError\<close>.\<close>

definition getitem :: "doc \<Rightarrow> string \<Rightarrow> error + val" where
  "getitem d k = (case map_of d k of None \<Rightarrow> Inl KeyError | Some v \<Rightarrow> Inr v)"

text \<open>\<^verbatim>\<open>insert_data = [(rec['email'], rec['date']) for rec in records]\<close>\<close>

fun insert_data_of :: "doc list \<Rightarrow> error + (val \<times> val) list" where
  "insert_data_of [] = Inr []"
| "insert_data_of (r # records) =
     and_then (getitem r ''email'') (\<lambda>e.
     and_then (getitem r ''date'') (\<lambda>d.
     and_then (insert_data_of records) (\<lambda>rest. Inr ((e, d) # rest))))"

text \<open>
  \<^verbatim>\<open>cursor.executemany("INSERT INTO user_history (email, date) VALUES (?, ?)", ...)\<close>,
  one row after the other. Binding a value that is neither text nor \<^verbatim>\<open>None\<close> raises
  \<^verbatim>\<open>ProgrammingError\<close>; a \<^verbatim>\<open>None\<close> violates \<^verbatim>\<open>NOT NULL\<close> and raises
  \<^verbatim>\<open>IntegrityError\<close>. A new row takes the identifier after the counter.
\<close>

fun is_oid :: "val \<Rightarrow> bool" where
  "is_oid (VOid n) = True"
| "is_oid v = False"

fun executemany :: "(val \<times> val) list \<Rightarrow> nat \<Rightarrow> row list \<Rightarrow> error + (row list \<times> nat)" where
  "executemany [] n rows = Inr (rows, n)"
| "executemany ((VStr e, VStr d) # rest) n rows =
     executemany rest (Suc n) (rows @ [\<lparr>id_col = Suc n, email_col = e, date_col = d\<rparr>])"
| "executemany ((e, d) # rest) n rows =
     (if is_oid e \<or> is_oid d then Inl ProgrammingError else Inl IntegrityError)"

text \<open>
  \<^verbatim>\<open>transfer_to_sqlite()\<close>. \<^verbatim>\<open>CREATE TABLE IF NOT EXISTS\<close> takes effect at once; the
  \<^verbatim>\<open>DELETE\<close> and the inserts are one transaction, which an exception before
  \<^verbatim>\<open>conn.commit()\<close> leaves uncommitted, so the table keeps its old rows.
\<close>

definition create_table :: "world \<Rightarrow> world" where
  "create_table w = (case table w of None \<Rightarrow> w\<lparr>table := Some [], seq := 0\<rparr> | Some rows \<Rightarrow> w)"

definition transfer_to_sqlite :: "world \<Rightarrow> (error + unit) \<times> world" where
  "transfer_to_sqlite w =
     (let records = collection w;
          w1 = create_table w
      in (case and_then (insert_data_of records) (\<lambda>insert_data. executemany insert_data (seq w1) []) of
            Inl e \<Rightarrow> (Inl e, w1)
          | Inr (rows, n) \<Rightarrow>
              (Inr (), print (Line ''Data successfully transferred to SQLite.'')
                         (w1\<lparr>table := Some rows, seq := n\<rparr>))))"

section \<open>Task 5: the ten queries\<close>

definition queries :: "(string \<times> string) list" where
  "queries =
    [(''1. Unique Emails'', ''SELECT DISTINCT email FROM user_history;''),
     (''2. Emails per Day'', ''SELECT date(date) as day, COUNT(*) FROM user_history GROUP BY day;''),
     (''3. First and Last Email per User'',
      ''SELECT email, MIN(date) AS first_email, MAX(date) AS last_email FROM user_history GROUP BY email;''),
     (''4. Emails per Domain'',
      ''SELECT substr(email, instr(email, '' @ [CHR 0x27] @ ''@'' @ [CHR 0x27] @
      '') + 1) as domain, COUNT(*) FROM user_history GROUP BY domain;''),
     (''5. Total Number of Emails'', ''SELECT COUNT(*) FROM user_history;''),
     (''6. Emails Count by Month'',
      ''SELECT strftime('' @ [CHR 0x27] @ ''%Y-%m'' @ [CHR 0x27] @
      '', date) AS month, COUNT(*) FROM user_history GROUP BY month;''),
     (''7. Email Frequency Ranking'',
      ''SELECT email, COUNT(*) as count FROM user_history GROUP BY email ORDER BY count DESC;''),
     (''8. Most Active Day'',
      ''SELECT date(date) as day, COUNT(*) as count FROM user_history GROUP BY day ORDER BY count DESC LIMIT 1;''),
     (''9. Emails by Day of Week'',
      ''SELECT strftime('' @ [CHR 0x27] @ ''%w'' @ [CHR 0x27] @
      '', date) as weekday, COUNT(*) FROM user_history GROUP BY weekday;''),
     (''10. Average Emails per Day'',
      ''SELECT AVG(count) FROM (SELECT COUNT(*) as count FROM user_history GROUP BY date(date));'')]"

text \<open>
  \<^verbatim>\<open>run_sql_queries()\<close>. What the database answers to a statement is the parameter
  \<open>execute\<close>: the rows of \<^verbatim>\<open>cursor.execute(query)\<close> and \<^verbatim>\<open>cursor.fetchall()\<close>, or
  the message of the exception they raise. The loop body is the \<^verbatim>\<open>try\<close> with its
  \<^verbatim>\<open>except Exception\<close>.
\<close>

type_synonym answer = "string + sqlval list list"

fun print_rows :: "sqlval list list \<Rightarrow> world \<Rightarrow> world" where
  "print_rows [] w = w"
| "print_rows (r # rows) w = print_rows rows (print (Row r) w)"

fun query_loop :: "(string \<Rightarrow> answer) \<Rightarrow> (string \<times> string) list \<Rightarrow> world \<Rightarrow> world" where
  "query_loop execute [] w = w"
| "query_loop execute ((desc, query) # rest) w =
     (let w1 = print (Line ([CHR 0x0A] @ desc @ '':'')) w;
          w2 = (case execute query of
                  Inr rows \<Rightarrow> print_rows rows w1
                | Inl e \<Rightarrow> print (Line (''Error executing query: '' @ e)) w1)
      in query_loop execute rest w2)"

definition run_sql_queries :: "(string \<Rightarrow> answer) \<Rightarrow> world \<Rightarrow> (error + unit) \<times> world" where
  "run_sql_queries execute w =
     (Inr (), query_loop execute queries (print (Line ([CHR 0x0A] @ ''SQL Query Results:'')) w))"

text \<open>
  The meaning of four of the statements on the rows of the table. Groups are listed
  by first occurrence of their key; SQL leaves the order of groups open. The scalar
  function \<^verbatim>\<open>date\<close> of SQLite is the parameter \<open>date_fn\<close>, whose value \<open>None\<close> is
  \<^verbatim>\<open>NULL\<close>; rows with a \<^verbatim>\<open>NULL\<close> key form one group. \<^verbatim>\<open>AVG\<close> is taken in exact
  arithmetic and is \<^verbatim>\<open>NULL\<close> over no rows.
\<close>

definition group_counts :: "('a \<Rightarrow> 'k) \<Rightarrow> 'a list \<Rightarrow> ('k \<times> nat) list" where
  "group_counts key rows =
     map (\<lambda>k. (k, length (filter (\<lambda>r. key r = k) rows))) (remdups (map key rows))"

text \<open>
  \<^verbatim>\<open>instr(X, Y)\<close>: one more than the number of characters before the first occurrence
  of \<open>Y\<close> in \<open>X\<close>, or 0. \<^verbatim>\<open>substr(X, Y)\<close> for \<open>Y\<close> from 1: the text from the \<open>Y\<close>-th
  character on. SQLite walks a text as a C string here, so neither the skipping nor
  the result goes past a NUL character.
\<close>

fun instr_at :: "nat \<Rightarrow> string \<Rightarrow> string \<Rightarrow> nat" where
  "instr_at n [] y = (if y = [] then n else 0)"
| "instr_at n (c # cs) y = (if take (length y) (c # cs) = y then n else instr_at (Suc n) cs y)"

definition instr :: "string \<Rightarrow> string \<Rightarrow> nat" where
  "instr x y = instr_at 1 x y"

fun skip_chars :: "nat \<Rightarrow> string \<Rightarrow> string" where
  "skip_chars 0 s = s"
| "skip_chars (Suc n) [] = []"
| "skip_chars (Suc n) (c # cs) = (if c = CHR 0x00 then c # cs else skip_chars n cs)"

definition substr :: "string \<Rightarrow> nat \<Rightarrow> string" where
  "substr x y = takeWhile (\<lambda>c. c \<noteq> CHR 0x00) (skip_chars (y - 1) x)"

definition domain :: "string \<Rightarrow> string" where
  "domain e = substr e (instr e ''@'' + 1)"

definition query2 :: "(string \<Rightarrow> string option) \<Rightarrow> row list \<Rightarrow> (string option \<times> nat) list" where
  "query2 date_fn rows = group_counts (\<lambda>r. date_fn (date_col r)) rows"

definition query4 :: "row list \<Rightarrow> (string \<times> nat) list" where
  "query4 rows = group_counts (\<lambda>r. domain (email_col r)) rows"

definition query5 :: "row list \<Rightarrow> nat" where
  "query5 rows = length rows"

definition avg :: "nat list \<Rightarrow> real option" where
  "avg xs = (if xs = [] then None else Some (real (sum_list xs) / real (length xs)))"

definition query10 :: "(string \<Rightarrow> string option) \<Rightarrow> row list \<Rightarrow> real option" where
  "query10 date_fn rows = avg (map snd (group_counts (\<lambda>r. date_fn (date_col r)) rows))"

section \<open>The main flow\<close>

text \<open>
  \<^verbatim>\<open>main()\<close>: an exception of a step ends the run there. \<open>engine\<close> is the relational
  database answering a statement over the table as it stands.
\<close>

definition mainflow ::
  "platform \<Rightarrow> (row list option \<Rightarrow> string \<Rightarrow> answer) \<Rightarrow> world \<Rightarrow> (error + unit) \<times> world" where
  "mainflow p engine w =
     (let log_file = ''mbox.txt'';
          w1 = print (Line ''Extracting and transforming data from the log file...'') w
      in (case extract_and_transform p (files w1) log_file of
            Inl e \<Rightarrow> (Inl e, w1)
          | Inr data \<Rightarrow>
              (let w2 = print (Line (''Extracted '' @ show_nat (length data) @ '' records.'')) w1;
                   w3 = print (Line ([CHR 0x0A] @ ''Saving data to MongoDB...'')) w2;
                   (r4, w4) = save_to_mongodb data w3
               in (case r4 of
                     Inl e \<Rightarrow> (Inl e, w4)
                   | Inr data' \<Rightarrow>
                       (let w5 = print (Line ([CHR 0x0A] @ ''Transferring data from MongoDB to SQLite...'')) w4;
                            (r6, w6) = transfer_to_sqlite w5
                        in (case r6 of
                              Inl e \<Rightarrow> (Inl e, w6)
                            | Inr u \<Rightarrow>
                                (let w7 = print (Line ([CHR 0x0A] @ ''Running SQL queries for analysis...'')) w6
                                 in run_sql_queries (engine (table w7)) w7)))))))"

section \<open>Notions of the specification\<close>

text \<open>
  The fields of a \<^verbatim>\<open>datetime\<close> object are in range; the constructor admits nothing else.
\<close>

definition valid_datetime :: "datetime \<Rightarrow> bool" where
  "valid_datetime dt =
     (1 \<le> year dt \<and> year dt \<le> 9999 \<and> 1 \<le> month dt \<and> month dt \<le> 12
      \<and> 1 \<le> day dt \<and> day dt \<le> days_in_month (year dt) (month dt)
      \<and> hour dt \<le> 23 \<and> minute dt \<le> 59 \<and> second dt \<le> 59)"

text \<open>
  The canonical form \<^verbatim>\<open>YYYY-MM-DD HH:MM:SS\<close>: nineteen characters, digits everywhere
  but for the two hyphens, the blank and the two colons.
\<close>

definition canonical_timestamp :: "string \<Rightarrow> bool" where
  "canonical_timestamp ts =
     (map (\<lambda>c. if is_digit c then CHR ''0'' else c) ts = ''0000-00-00 00:00:00'')"

text \<open>
  The \<^verbatim>\<open>except ValueError\<close> branch of the loop body runs, and with it the second
  format is tried, exactly when the first call raises \<^verbatim>\<open>ValueError\<close>.
\<close>

definition second_format_tried :: "string \<Rightarrow> bool" where
  "second_format_tried date_str = (strptime date_str ''%a %b %d %H:%M:%S %Y'' = Inl ValueError)"

text \<open>
  A document that the transfer can copy: \<^verbatim>\<open>email\<close> and \<^verbatim>\<open>date\<close> are present and
  are text. \<open>pair_of\<close> reads the two texts.
\<close>

fun has_text :: "doc \<Rightarrow> string \<Rightarrow> bool" where
  "has_text d k = (case map_of d k of Some (VStr t) \<Rightarrow> True | _ \<Rightarrow> False)"

definition storable :: "doc \<Rightarrow> bool" where
  "storable d = (has_text d ''email'' \<and> has_text d ''date'')"

definition doc_text :: "doc \<Rightarrow> string \<Rightarrow> string" where
  "doc_text d k = (case map_of d k of Some (VStr t) \<Rightarrow> t | _ \<Rightarrow> [])"

definition pair_of :: "doc \<Rightarrow> string \<times> string" where
  "pair_of d = (doc_text d ''email'', doc_text d ''date'')"

text \<open>The rows that inserting the given pairs after counter value \<open>n\<close> creates.\<close>

fun new_rows :: "nat \<Rightarrow> (string \<times> string) list \<Rightarrow> row list" where
  "new_rows n [] = []"
| "new_rows n ((e, d) # ps) = \<lparr>id_col = Suc n, email_col = e, date_col = d\<rparr> # new_rows (Suc n) ps"

text \<open>The rows of the table, none when the table does not exist, and their two texts.\<close>

definition table_rows :: "world \<Rightarrow> row list" where
  "table_rows w = (case table w of None \<Rightarrow> [] | Some rows \<Rightarrow> rows)"

definition table_pairs :: "world \<Rightarrow> (string \<times> string) list" where
  "table_pairs w = map (\<lambda>r. (email_col r, date_col r)) (table_rows w)"

text \<open>
  The dictionary that the extraction builds for a sender and a timestamp, and the same
  dictionaries after \<^verbatim>\<open>insert_many\<close> has given them identifiers from \<open>n\<close> on.
\<close>

definition record_doc :: "string \<times> string \<Rightarrow> doc" where
  "record_doc r = [(''email'', VStr (fst r)), (''date'', VStr (snd r))]"

fun with_ids :: "nat \<Rightarrow> (string \<times> string) list \<Rightarrow> doc list" where
  "with_ids n [] = []"
| "with_ids n (r # rs) = (record_doc r @ [(''_id'', VOid n)]) # with_ids (Suc n) rs"

text \<open>The identifiers of a list of documents.\<close>

definition ids_of :: "doc list \<Rightarrow> val option list" where
  "ids_of ds = map (\<lambda>d. map_of d ''_id'') ds"

text \<open>
  The writer followed by the transfer, as \<^verbatim>\<open>main\<close> runs them: an exception of the
  first step skips the second. The result is the list \<^verbatim>\<open>data\<close> as the steps leave it.
\<close>

definition store_and_transfer :: "doc list \<Rightarrow> world \<Rightarrow> (error + doc list) \<times> world" where
  "store_and_transfer data w =
     (let (r1, w1) = save_to_mongodb data w
      in (case r1 of
            Inl e \<Rightarrow> (Inl e, w1)
          | Inr data' \<Rightarrow>
              (let (r2, w2) = transfer_to_sqlite w1
               in (case r2 of Inl e \<Rightarrow> (Inl e, w2) | Inr u \<Rightarrow> (Inr data', w2)))))"

text \<open>
  The calendar day of a stored timestamp, as the specification has it: its date
  portion, the text before the blank.
\<close>

definition calendar_day :: "string \<Rightarrow> string" where
  "calendar_day ts = takeWhile (\<lambda>c. c \<noteq> CHR '' '') ts"

text \<open>
  The scalar function \<^verbatim>\<open>date\<close> of SQLite, on the texts that the extraction writes.
  A text of the shape \<^verbatim>\<open>NNNN-NN-NN NN:NN:NN\<close> is read when the month is 1 to 12, the
  day 1 to 31, the hour at most 23, the minute and the second at most 59; the value
  is the date itself, and for a day past the end of its month the date that many days
  into the next month (\<^verbatim>\<open>2023-02-29\<close> is \<^verbatim>\<open>2023-03-01\<close>). Any other text of that
  shape, and a timestamp whose year has fewer than four digits, is not read: the value
  is \<^verbatim>\<open>NULL\<close>. SQLite reads further shapes (a date alone, hour 24, fractions of a
  second, a time zone); they are outside this model, which answers \<^verbatim>\<open>NULL\<close> there.
  \<open>well_dated\<close> says that a text is the canonical timestamp of a calendar date.
\<close>

definition num_at :: "string \<Rightarrow> nat \<Rightarrow> nat \<Rightarrow> nat" where
  "num_at ts i n = foldl (\<lambda>acc c. 10 * acc + digit_value c) 0 (take n (drop i ts))"

definition well_dated :: "string \<Rightarrow> bool" where
  "well_dated ts =
     (canonical_timestamp ts
      \<and> 1 \<le> num_at ts 5 2 \<and> num_at ts 5 2 \<le> 12
      \<and> 1 \<le> num_at ts 8 2 \<and> num_at ts 8 2 \<le> days_in_month (num_at ts 0 4) (num_at ts 5 2)
      \<and> num_at ts 11 2 \<le> 23 \<and> num_at ts 14 2 \<le> 59 \<and> num_at ts 17 2 \<le> 59)"

definition sqlite_date :: "string \<Rightarrow> string option" where
  "sqlite_date ts =
     (if well_dated ts then Some (take 10 ts)
      else if canonical_timestamp ts
              \<and> 1 \<le> num_at ts 5 2 \<and> num_at ts 5 2 \<le> 12
              \<and> 1 \<le> num_at ts 8 2 \<and> num_at ts 8 2 \<le> 31
              \<and> num_at ts 11 2 \<le> 23 \<and> num_at ts 14 2 \<le> 59 \<and> num_at ts 17 2 \<le> 59
      then Some (take 5 ts @ zfill 2 (show_nat (num_at ts 5 2 + 1)) @ ''-''
                 @ zfill 2 (show_nat (num_at ts 8 2 - days_in_month (num_at ts 0 4) (num_at ts 5 2))))
      else None)"

text \<open>The part of a sender address strictly after its first \<^verbatim>\<open>@\<close>.\<close>

definition after_first_at :: "string \<Rightarrow> string" where
  "after_first_at e = tl (dropWhile (\<lambda>c. c \<noteq> CHR ''@'') e)"

text \<open>
  What the loop prints for one query: its label, then its rows or the message of its
  exception.
\<close>

definition query_section :: "(string \<Rightarrow> answer) \<Rightarrow> string \<times> string \<Rightarrow> printed list" where
  "query_section execute q =
     Line ([CHR 0x0A] @ fst q @ '':'')
     # (case execute (snd q) of
          Inr rows \<Rightarrow> map Row rows
        | Inl e \<Rightarrow> [Line (''Error executing query: '' @ e)])"

text \<open>A database that refuses the third statement and answers the others.\<close>

definition locked_at_third :: "string \<Rightarrow> answer" where
  "locked_at_third query =
     (if query = snd (queries ! 2) then Inl ''database is locked'' else Inr [[SInt 1]])"

text \<open>Sample inputs.\<close>

definition day32_log :: string where
  "day32_log = ''From alice@example.com Mon Jan  5 09:08:07 2024'' @ [CHR 0x0A]
     @ ''From a@b.c Mon Jan 32 09:08:07 2024'' @ [CHR 0x0A]
     @ ''From bob@example.com Tue Jan 15 23:59:59 2024'' @ [CHR 0x0A]"

definition two_docs :: "doc list" where
  "two_docs =
     [[(''_id'', VOid 0), (''email'', VStr ''alice@example.com''), (''date'', VStr ''2024-01-05 09:08:07'')],
      [(''_id'', VOid 1), (''email'', VStr ''bob@example.com''), (''date'', VStr ''2024-01-15 23:59:59'')]]"

definition used_world :: world where
  "used_world =
     \<lparr>files = Map.empty, collection = two_docs, next_oid = 2,
      table = Some [\<lparr>id_col = 1, email_col = ''old@example.com'', date_col = ''2023-12-31 00:00:00''\<rparr>],
      seq = 1, stdout = []\<rparr>"

definition three_rows :: "row list" where
  "three_rows =
     [\<lparr>id_col = 1, email_col = ''alice@example.com'', date_col = ''2024-01-05 09:08:07''\<rparr>,
      \<lparr>id_col = 2, email_col = ''bob@example.com'', date_col = ''2024-01-05 23:59:59''\<rparr>,
      \<lparr>id_col = 3, email_col = ''carol@test.org'', date_col = ''2024-01-15 10:00:00''\<rparr>]"

definition two_line_log :: string where
  "two_line_log = ''From alice@example.com Mon Jan  5 09:08:07 2024'' @ [CHR 0x0A]
     @ ''From bob@example.com Tue Jan 15 23:59:59 2024'' @ [CHR 0x0A]"

definition sample_data :: "doc list" where
  "sample_data =
     [[(''email'', VStr ''alice@example.com''), (''date'', VStr ''2024-01-05 09:08:07'')],
      [(''email'', VStr ''bob@example.com''), (''date'', VStr ''2024-01-15 23:59:59'')]]"

definition no_from_world :: world where
  "no_from_world =
     \<lparr>files = [''mbox.txt'' \<mapsto> ''Subject: hello'' @ [CHR 0x0A] @ ''no sender here'' @ [CHR 0x0A]],
      collection = two_docs, next_oid = 2,
      table = Some [\<lparr>id_col = 1, email_col = ''old@example.com'', date_col = ''2023-12-31 00:00:00''\<rparr>],
      seq = 1, stdout = []\<rparr>"

definition short_year_rows :: "row list" where
  "short_year_rows =
     [\<lparr>id_col = 1, email_col = ''a@b.c'', date_col = ''5-01-05 09:08:07''\<rparr>,
      \<lparr>id_col = 2, email_col = ''d@e.f'', date_col = ''999-12-31 23:59:59''\<rparr>]"

section \<open>Exceptions of the date parser\<close>

declare show_nat.simps [simp del]

declare timere_pattern.simps [simp del]

lemma and_then_Inl: "and_then r f = Inl e \<longleftrightarrow> r = Inl e \<or> (\<exists>x. r = Inr x \<and> f x = Inl e)"
  by (cases r) (simp_all add: and_then_def)

lemma and_then_Inr: "and_then r f = Inr y \<longleftrightarrow> (\<exists>x. r = Inr x \<and> f x = Inr y)"
  by (cases r) (simp_all add: and_then_def)

lemma py_int_error: "py_int s = Inl e \<Longrightarrow> e = ValueError"
  by (simp add: py_int_def Let_def split: if_splits)

lemma list_index_error: "list_index xs x = Inl e \<Longrightarrow> e = ValueError"
  by (induction xs) (auto split: if_splits sum.splits)

lemma group_int_error: "group_int found k dflt = Inl e \<Longrightarrow> e = ValueError"
  by (auto simp: group_int_def split: option.splits dest: py_int_error)

lemma group_month_error: "group_month found = Inl e \<Longrightarrow> e = ValueError"
  by (auto simp: group_month_def split: option.splits dest: list_index_error)

lemma datetime_new_error: "datetime_new y mo d h mi s = Inl e \<Longrightarrow> e = ValueError"
  by (simp add: datetime_new_def split: if_splits)

lemma strptime_error: "strptime s f = Inl e \<Longrightarrow> e = ValueError"
  unfolding strptime_def
  by (auto simp: and_then_Inl split: option.splits if_splits
      dest: group_int_error group_month_error datetime_new_error)

lemma parse_date_error: "parse_date s = Inl e \<Longrightarrow> e = ValueError"
  unfolding parse_date_def
  by (auto split: sum.splits error.splits dest: strptime_error)

lemma datetime_new_valid: "datetime_new y mo d h mi s = Inr dt \<Longrightarrow> valid_datetime dt"
  by (auto simp: datetime_new_def valid_datetime_def split: if_splits)

lemma strptime_valid: "strptime s f = Inr dt \<Longrightarrow> valid_datetime dt"
  unfolding strptime_def
  by (auto simp: and_then_Inr split: option.splits if_splits dest: datetime_new_valid)

lemma parse_date_valid: "parse_date s = Inr dt \<Longrightarrow> valid_datetime dt"
  unfolding parse_date_def
  by (auto split: sum.splits error.splits dest: strptime_valid)

text \<open>
  The two formats of the program differ in one blank, so they compile to one
  expression and \<^verbatim>\<open>strptime\<close> treats every text alike under both: the second call
  can only repeat the failure of the first.
\<close>

lemma same_expression:
  "timere_pattern ''%a %b  %d %H:%M:%S %Y'' = timere_pattern ''%a %b %d %H:%M:%S %Y''"
  by code_simp

lemma strptime_formats_agree:
  "strptime date_str ''%a %b  %d %H:%M:%S %Y'' = strptime date_str ''%a %b %d %H:%M:%S %Y''"
  by (simp only: strptime_def same_expression)

lemma parse_date_is_first_format: "parse_date date_str = strptime date_str ''%a %b %d %H:%M:%S %Y''"
  unfolding parse_date_def strptime_formats_agree
  by (auto split: sum.splits error.splits)

section \<open>The loop over the lines\<close>

lemma extract_loop_skip:
  "pattern_search line = None \<Longrightarrow>
   extract_loop p (pre @ line # post) acc = extract_loop p (pre @ post) acc"
  by (induction pre arbitrary: acc) (auto split: option.splits sum.splits simp: Let_def)

lemma extract_loop_abort:
  "pattern_search line = Some (email, date_str) \<Longrightarrow> parse_date date_str = Inl ValueError \<Longrightarrow>
   extract_loop p (pre @ line # post) acc = Inl ValueError"
  by (induction pre arbitrary: acc)
     (auto split: option.splits sum.splits simp: Let_def dest: parse_date_error)

text \<open>
  Claim C1, as the code has it. The file whose one line is
  \<^verbatim>\<open>From alice@example.com Mon Jan  5 09:08:07 2024\<close>, with or without a line
  terminator, gives exactly one record, with
  the sender \<^verbatim>\<open>alice@example.com\<close> and the date \<^verbatim>\<open>2024-01-05 09:08:07\<close>, on either
  platform; and the first call of \<^verbatim>\<open>strptime\<close> already returns the date, so the
  second format is not tried.
\<close>

theorem alice_record:
  "extract_and_transform p [''mbox.txt'' \<mapsto> ''From alice@example.com Mon Jan  5 09:08:07 2024''] ''mbox.txt''
     = Inr [[(''email'', VStr ''alice@example.com''), (''date'', VStr ''2024-01-05 09:08:07'')]]
   \<and> extract_and_transform p
       [''mbox.txt'' \<mapsto> ''From alice@example.com Mon Jan  5 09:08:07 2024'' @ [CHR 0x0A]] ''mbox.txt''
     = Inr [[(''email'', VStr ''alice@example.com''), (''date'', VStr ''2024-01-05 09:08:07'')]]
   \<and> strptime ''Mon Jan  5 09:08:07 2024'' ''%a %b %d %H:%M:%S %Y''
     = Inr \<lparr>year = 2024, month = 1, day = 5, hour = 9, minute = 8, second = 7\<rparr>"
  by (induct p; code_simp)

text \<open>
  Claim C1 as stated says that this line exercises the retry. It does not: on the date
  text of the line the first call does not raise.
\<close>

theorem double_space_first_format:
  "\<not> second_format_tried ''Mon Jan  5 09:08:07 2024''"
  by code_simp

section \<open>The form of the timestamp\<close>

lemma is_digit_digit: "k < 10 \<Longrightarrow> is_digit (digit k)"
  by (simp add: is_digit_def digit_def)

lemma is_digit_zero: "is_digit CHR ''0''"
  by (simp add: is_digit_def)

lemma show_nat_1: "n < 10 \<Longrightarrow> show_nat n = [digit n]"
  by (subst show_nat.simps) simp

lemma show_nat_2: "10 \<le> n \<Longrightarrow> n < 100 \<Longrightarrow> show_nat n = [digit (n div 10), digit (n mod 10)]"
  by (subst show_nat.simps) (simp add: show_nat_1)

lemma show_nat_step: "\<not> m < 10 \<Longrightarrow> show_nat m = show_nat (m div 10) @ [digit (m mod 10)]"
  by (subst show_nat.simps) simp

lemma two_digits:
  assumes "n < 100"
  shows "\<exists>a b. zfill 2 (show_nat n) = [a, b] \<and> is_digit a \<and> is_digit b"
proof (cases "n < 10")
  case True
  then show ?thesis
    by (simp add: show_nat_1 zfill_def is_digit_digit is_digit_zero)
next
  case False
  with assms have "show_nat n = [digit (n div 10), digit (n mod 10)]"
    by (simp add: show_nat_2)
  moreover from assms have "n div 10 < 10" by simp
  ultimately show ?thesis
    by (simp add: zfill_def is_digit_digit)
qed

lemma show_nat_digits: "list_all is_digit (show_nat n)"
proof (induction n rule: show_nat.induct)
  case (1 n)
  show ?case
  proof (cases "n < 10")
    case True
    then show ?thesis by (simp add: show_nat_1 is_digit_digit)
  next
    case False
    with "1.IH" show ?thesis by (simp add: show_nat_step is_digit_digit)
  qed
qed

lemma length_show_nat:
  assumes "n < 10000"
  shows "length (show_nat n) \<le> 4"
proof (cases "n < 10")
  case True
  then show ?thesis by (simp add: show_nat_1)
next
  case n1: False
  show ?thesis
  proof (cases "n div 10 < 10")
    case True
    then show ?thesis using n1 by (simp add: show_nat_step show_nat_1)
  next
    case n2: False
    show ?thesis
    proof (cases "n div 10 div 10 < 10")
      case True
      then show ?thesis using n1 n2 by (simp add: show_nat_step show_nat_1)
    next
      case n3: False
      from assms have "n div 10 div 10 div 10 < 10" by simp
      then show ?thesis using n1 n2 n3 by (simp add: show_nat_step show_nat_1)
    qed
  qed
qed

lemma length_show_nat_4:
  assumes "1000 \<le> n" "n < 10000"
  shows "length (show_nat n) = 4"
proof -
  from assms have 1: "\<not> n < 10" "\<not> n div 10 < 10" "\<not> n div 10 div 10 < 10"
    "n div 10 div 10 div 10 < 10"
    by simp_all
  show ?thesis
    by (simp add: show_nat_step[OF 1(1)] show_nat_step[OF 1(2)] show_nat_step[OF 1(3)]
        show_nat_1[OF 1(4)])
qed

lemma four_digits_of:
  assumes "length s = 4" "list_all is_digit s"
  shows "\<exists>a b c d. s = [a, b, c, d] \<and> is_digit a \<and> is_digit b \<and> is_digit c \<and> is_digit d"
proof -
  from assms(1) obtain a b c d where "s = [a, b, c, d]"
    by (auto simp: length_Suc_conv numeral_eq_Suc)
  with assms(2) show ?thesis by simp
qed

lemma zfill_4_digits:
  assumes "n < 10000"
  shows "length (zfill 4 (show_nat n)) = 4 \<and> list_all is_digit (zfill 4 (show_nat n))"
  using length_show_nat[OF assms] show_nat_digits[of n]
  by (auto simp: zfill_def is_digit_zero list_all_iff)

lemma year_text_digits:
  assumes "1 \<le> year dt" "year dt \<le> 9999" "p = Zero_padding \<or> 1000 \<le> year dt"
  shows "\<exists>a b c d. render p dt CHR ''Y'' = [a, b, c, d]
           \<and> is_digit a \<and> is_digit b \<and> is_digit c \<and> is_digit d"
proof (cases p)
  case Glibc
  with assms have "1000 \<le> year dt" "year dt < 10000" by simp_all
  then have "length (show_nat (year dt)) = 4" by (rule length_show_nat_4)
  then show ?thesis
    using Glibc show_nat_digits[of "year dt"] by (simp add: render_def four_digits_of)
next
  case Zero_padding
  from assms have "year dt < 10000" by simp
  from zfill_4_digits[OF this] show ?thesis
    using Zero_padding by (simp add: render_def four_digits_of)
qed

lemma not_digit_seps: "\<not> is_digit CHR ''-''" "\<not> is_digit CHR '' ''" "\<not> is_digit CHR '':''"
  by (simp_all add: is_digit_def)

text \<open>
  Where the year is printed with four digits, the timestamp of a \<^verbatim>\<open>datetime\<close> is
  canonical: on a platform that pads the year, and on every platform from the year
  1000 on.
\<close>

lemma strftime_canonical:
  assumes v: "valid_datetime dt" and y: "p = Zero_padding \<or> 1000 \<le> year dt"
  shows "canonical_timestamp (strftime p dt ''%Y-%m-%d %H:%M:%S'')"
proof -
  from v have b: "1 \<le> year dt" "year dt \<le> 9999" "month dt < 100" "day dt < 100"
    "hour dt < 100" "minute dt < 100" "second dt < 100"
    by (auto simp: valid_datetime_def days_in_month_def split: if_splits)
  obtain y1 y2 y3 y4 where Y: "render p dt CHR ''Y'' = [y1, y2, y3, y4]"
    "is_digit y1" "is_digit y2" "is_digit y3" "is_digit y4"
    using year_text_digits[OF b(1) b(2) y] by blast
  obtain m1 m2 where M: "zfill 2 (show_nat (month dt)) = [m1, m2]" "is_digit m1" "is_digit m2"
    using two_digits[OF b(3)] by blast
  obtain d1 d2 where D: "zfill 2 (show_nat (day dt)) = [d1, d2]" "is_digit d1" "is_digit d2"
    using two_digits[OF b(4)] by blast
  obtain h1 h2 where H: "zfill 2 (show_nat (hour dt)) = [h1, h2]" "is_digit h1" "is_digit h2"
    using two_digits[OF b(5)] by blast
  obtain i1 i2 where I: "zfill 2 (show_nat (minute dt)) = [i1, i2]" "is_digit i1" "is_digit i2"
    using two_digits[OF b(6)] by blast
  obtain s1 s2 where S: "zfill 2 (show_nat (second dt)) = [s1, s2]" "is_digit s1" "is_digit s2"
    using two_digits[OF b(7)] by blast
  have r: "render p dt CHR ''m'' = [m1, m2]" "render p dt CHR ''d'' = [d1, d2]"
    "render p dt CHR ''H'' = [h1, h2]" "render p dt CHR ''M'' = [i1, i2]"
    "render p dt CHR ''S'' = [s1, s2]"
    using M(1) D(1) H(1) I(1) S(1) by (simp_all add: render_def)
  have "strftime p dt ''%Y-%m-%d %H:%M:%S''
      = [y1, y2, y3, y4] @ ''-'' @ [m1, m2] @ ''-'' @ [d1, d2] @ '' '' @ [h1, h2] @ '':'' @ [i1, i2] @ '':'' @ [s1, s2]"
    by (simp add: Y(1) r)
  then show ?thesis
    using Y M D H I S by (simp add: canonical_timestamp_def not_digit_seps)
qed

lemma timestamp_canonical:
  assumes "parse_date date_str = Inr date_obj" and "p = Zero_padding \<or> 1000 \<le> year date_obj"
  shows "canonical_timestamp (strftime p date_obj ''%Y-%m-%d %H:%M:%S'')"
  using strftime_canonical[OF parse_date_valid[OF assms(1)] assms(2)] .

text \<open>
  Claim C2 at the input where the code departs from it. The line
  \<^verbatim>\<open>From a@b.c Mon Jan  5 09:08:07 0005\<close> matches the pattern and its date parses
  (year 5). Where \<^verbatim>\<open>%Y\<close> is printed by glibc the timestamp is \<^verbatim>\<open>5-01-05 09:08:07\<close>:
  sixteen characters, not of the canonical form.
\<close>

theorem glibc_short_year:
  "extract_and_transform Glibc [''mbox.txt'' \<mapsto> ''From a@b.c Mon Jan  5 09:08:07 0005''] ''mbox.txt''
     = Inr [[(''email'', VStr ''a@b.c''), (''date'', VStr ''5-01-05 09:08:07'')]]
   \<and> length ''5-01-05 09:08:07'' = 16
   \<and> \<not> canonical_timestamp ''5-01-05 09:08:07''"
  by code_simp

text \<open>
  Claim C3. When a line of the file matches the pattern and its date text is refused
  under both formats, \<^verbatim>\<open>extract_and_transform\<close> ends with \<^verbatim>\<open>ValueError\<close>: there is
  no list of records, whatever the other lines are.
\<close>

theorem unparsable_date_aborts:
  assumes "fs log_file = Some content"
    and "line \<in> set (file_lines content)"
    and "pattern_search line = Some (email, date_str)"
    and "strptime date_str ''%a %b %d %H:%M:%S %Y'' = Inl ValueError"
    and "strptime date_str ''%a %b  %d %H:%M:%S %Y'' = Inl ValueError"
  shows "extract_and_transform p fs log_file = Inl ValueError"
proof -
  from assms(2) obtain pre post where "file_lines content = pre @ line # post"
    by (auto simp: in_set_conv_decomp)
  moreover from assms(4,5) have "parse_date date_str = Inl ValueError"
    by (simp add: parse_date_def)
  ultimately show ?thesis
    using assms(1,3) by (simp add: extract_and_transform_def extract_loop_abort)
qed

theorem unparsable_date_aborts_witness:
  "[''mbox.txt'' \<mapsto> day32_log] ''mbox.txt'' = Some day32_log
   \<and> ''From a@b.c Mon Jan 32 09:08:07 2024'' @ [CHR 0x0A] \<in> set (file_lines day32_log)
   \<and> pattern_search (''From a@b.c Mon Jan 32 09:08:07 2024'' @ [CHR 0x0A])
       = Some (''a@b.c'', ''Mon Jan 32 09:08:07 2024'')
   \<and> strptime ''Mon Jan 32 09:08:07 2024'' ''%a %b %d %H:%M:%S %Y'' = Inl ValueError
   \<and> strptime ''Mon Jan 32 09:08:07 2024'' ''%a %b  %d %H:%M:%S %Y'' = Inl ValueError
   \<and> extract_and_transform Glibc [''mbox.txt'' \<mapsto> day32_log] ''mbox.txt'' = Inl ValueError"
proof -
  have 1: "[''mbox.txt'' \<mapsto> day32_log] ''mbox.txt'' = Some day32_log" by simp
  have 2: "''From a@b.c Mon Jan 32 09:08:07 2024'' @ [CHR 0x0A] \<in> set (file_lines day32_log)"
    by code_simp
  have 3: "pattern_search (''From a@b.c Mon Jan 32 09:08:07 2024'' @ [CHR 0x0A])
       = Some (''a@b.c'', ''Mon Jan 32 09:08:07 2024'')"
    by code_simp
  have 4: "strptime ''Mon Jan 32 09:08:07 2024'' ''%a %b %d %H:%M:%S %Y'' = Inl ValueError"
    by code_simp
  have 5: "strptime ''Mon Jan 32 09:08:07 2024'' ''%a %b  %d %H:%M:%S %Y'' = Inl ValueError"
    by code_simp
  from unparsable_date_aborts[where fs = "[''mbox.txt'' \<mapsto> day32_log]" and log_file = "''mbox.txt''"
      and p = Glibc, OF 1 2 3 4 5] 1 2 3 4 5
  show ?thesis by blast
qed

text \<open>
  Claim C4. A line that the pattern does not match adds no record and raises nothing:
  the loop gives the result it gives without the line, for the lines before it, the
  lines after it and the records collected so far.
\<close>

theorem unmatched_line_skipped:
  assumes "pattern_search line = None"
  shows "extract_loop p (pre @ line # post) transformed_data
           = extract_loop p (pre @ post) transformed_data"
  using assms by (rule extract_loop_skip)

theorem unmatched_line_skipped_witness:
  "pattern_search (''Subject: hello'' @ [CHR 0x0A]) = None
   \<and> extract_loop Glibc
        ([''From alice@example.com Mon Jan  5 09:08:07 2024'' @ [CHR 0x0A]]
          @ (''Subject: hello'' @ [CHR 0x0A])
          # [''From bob@example.com Tue Jan 15 23:59:59 2024'' @ [CHR 0x0A]]) []
     = Inr [[(''email'', VStr ''alice@example.com''), (''date'', VStr ''2024-01-05 09:08:07'')],
            [(''email'', VStr ''bob@example.com''), (''date'', VStr ''2024-01-15 23:59:59'')]]"
proof -
  have 1: "pattern_search (''Subject: hello'' @ [CHR 0x0A]) = None" by code_simp
  have 2: "extract_loop Glibc
        ([''From alice@example.com Mon Jan  5 09:08:07 2024'' @ [CHR 0x0A]]
          @ [''From bob@example.com Tue Jan 15 23:59:59 2024'' @ [CHR 0x0A]]) []
     = Inr [[(''email'', VStr ''alice@example.com''), (''date'', VStr ''2024-01-05 09:08:07'')],
            [(''email'', VStr ''bob@example.com''), (''date'', VStr ''2024-01-15 23:59:59'')]]"
    by code_simp
  from unmatched_line_skipped[OF 1, of Glibc
      "[''From alice@example.com Mon Jan  5 09:08:07 2024'' @ [CHR 0x0A]]"
      "[''From bob@example.com Tue Jan 15 23:59:59 2024'' @ [CHR 0x0A]]" "[]"] 1 2
  show ?thesis by simp
qed

section \<open>The transfer and the count of rows\<close>

lemma insert_data_of_length: "insert_data_of records = Inr ps \<Longrightarrow> length ps = length records"
  by (induction records arbitrary: ps) (auto simp: and_then_Inr)

lemma executemany_result:
  "executemany ps n rows = Inr (rows', n') \<Longrightarrow>
     length rows' = length rows + length ps \<and> n' = n + length ps"
  by (induction ps n rows rule: executemany.induct) (auto split: if_splits)

lemma insert_data_of_storable:
  "list_all storable records \<Longrightarrow>
   insert_data_of records = Inr (map (\<lambda>d. (VStr (doc_text d ''email''), VStr (doc_text d ''date''))) records)"
  by (induction records)
     (auto simp: and_then_def getitem_def storable_def doc_text_def split: option.splits val.splits)

lemma executemany_texts:
  "executemany (map (\<lambda>(e, d). (VStr e, VStr d)) ps) n rows = Inr (rows @ new_rows n ps, n + length ps)"
  by (induction ps arbitrary: n rows) auto

lemma pairs_new_rows: "map (\<lambda>r. (email_col r, date_col r)) (new_rows n ps) = ps"
  by (induction ps arbitrary: n) auto

lemma length_new_rows: "length (new_rows n ps) = length ps"
  by (induction ps arbitrary: n) auto

lemma insert_data_of_pairs:
  assumes "list_all storable records"
  shows "insert_data_of records = Inr (map (\<lambda>(e, d). (VStr e, VStr d)) (map pair_of records))"
  by (simp add: insert_data_of_storable[OF assms] pair_of_def)

lemma transfer_storable:
  assumes "list_all storable (collection w)"
  shows "transfer_to_sqlite w =
     (Inr (), print (Line ''Data successfully transferred to SQLite.'')
        ((create_table w)\<lparr>table := Some (new_rows (seq (create_table w)) (map pair_of (collection w))),
                          seq := seq (create_table w) + length (collection w)\<rparr>))"
  unfolding transfer_to_sqlite_def Let_def insert_data_of_pairs[OF assms] and_then_def
  by (simp only: executemany_texts sum.case prod.case length_map append_Nil)

lemma transfer_count:
  assumes "fst (transfer_to_sqlite w) = Inr ()"
  shows "\<exists>rows. table (snd (transfer_to_sqlite w)) = Some rows \<and> length rows = length (collection w)"
proof (cases "and_then (insert_data_of (collection w))
                (\<lambda>insert_data. executemany insert_data (seq (create_table w)) [])")
  case (Inl e)
  with assms show ?thesis by (simp add: transfer_to_sqlite_def Let_def)
next
  case (Inr res)
  obtain rows n where res: "res = (rows, n)" by (cases res)
  from Inr res obtain ps where ps: "insert_data_of (collection w) = Inr ps"
    "executemany ps (seq (create_table w)) [] = Inr (rows, n)"
    by (auto simp: and_then_Inr)
  from insert_data_of_length[OF ps(1)] executemany_result[OF ps(2)]
  have "length rows = length (collection w)" by simp
  with Inr res show ?thesis by (simp add: transfer_to_sqlite_def Let_def print_def)
qed

text \<open>
  Claim C5. After a transfer that completes, the table exists and query 5, the count of
  its rows, is the number of documents read from the collection; and the transfer
  completes whenever every document read has a text under \<^verbatim>\<open>email\<close> and under
  \<^verbatim>\<open>date\<close>, which is what a record is.
\<close>

theorem transfer_row_count:
  "(fst (transfer_to_sqlite w) = Inr () \<longrightarrow>
      (\<exists>rows. table (snd (transfer_to_sqlite w)) = Some rows \<and> query5 rows = length (collection w)))
   \<and> (list_all storable (collection w) \<longrightarrow> fst (transfer_to_sqlite w) = Inr ())"
  using transfer_count[of w] transfer_storable[of w] by (simp add: query5_def)

theorem transfer_row_count_witness:
  "list_all storable (collection used_world)
   \<and> fst (transfer_to_sqlite used_world) = Inr ()
   \<and> (\<exists>rows. table (snd (transfer_to_sqlite used_world)) = Some rows \<and> query5 rows = 2)
   \<and> length (collection used_world) = 2"
proof -
  have 1: "list_all storable (collection used_world)" by code_simp
  have 2: "length (collection used_world) = 2" by code_simp
  from transfer_row_count[of used_world] 1 2 show ?thesis by simp
qed

section \<open>Groups and their counts\<close>

lemma count_keys: "count (mset (map key rows)) k = length (filter (\<lambda>r. key r = k) rows)"
  by (induction rows) auto

lemma sum_group_counts: "sum_list (map snd (group_counts key rows)) = length rows"
proof -
  have "map snd (group_counts key rows)
      = map (count (mset (map key rows))) (remdups (map key rows))"
    unfolding group_counts_def by (simp add: comp_def count_keys del: mset_map)
  then have "sum_list (map snd (group_counts key rows))
      = (\<Sum>k\<in>set (map key rows). count (mset (map key rows)) k)"
    by (simp add: sum_list_distinct_conv_sum_set del: mset_map)
  also have "\<dots> = size (mset (map key rows))"
    by (metis set_mset_mset size_multiset_overloaded_eq)
  finally show ?thesis by simp
qed

lemma length_group_counts: "length (group_counts key rows) = card (key ` set rows)"
  by (simp add: group_counts_def length_remdups_card_conv)

lemma group_counts_empty: "group_counts key rows = [] \<longleftrightarrow> rows = []"
  by (simp add: group_counts_def)

lemma avg_of_groups:
  assumes "rows \<noteq> []"
  shows "query10 date_fn rows = avg (map snd (query2 date_fn rows))"
    and "sum_list (map snd (query2 date_fn rows)) = query5 rows"
    and "query10 date_fn rows = Some (real (query5 rows) / real (length (query2 date_fn rows)))"
    and "length (query2 date_fn rows) = card ((\<lambda>r. date_fn (date_col r)) ` set rows)"
  using assms
  by (simp_all add: query10_def query2_def query5_def avg_def sum_group_counts length_group_counts
      group_counts_empty)

lemma blank_not_digit: "\<not> is_digit CHR '' ''"
  by (simp add: is_digit_def)

lemma calendar_day_canonical:
  assumes "canonical_timestamp ts"
  shows "calendar_day ts = take 10 ts"
proof -
  let ?f = "\<lambda>c. if is_digit c then CHR ''0'' else c"
  from assms have m: "map ?f ts = ''0000-00-00 00:00:00''"
    by (simp add: canonical_timestamp_def)
  then have "length (map ?f ts) = length ''0000-00-00 00:00:00''" by simp
  then have len: "length ts = 19" by simp
  have "map ?f (take 10 ts) = take 10 (map ?f ts)" by (simp add: take_map)
  with m have d: "map ?f (take 10 ts) = ''0000-00-00''" by simp
  have nb: "CHR '' '' \<notin> set (take 10 ts)"
  proof
    assume "CHR '' '' \<in> set (take 10 ts)"
    then have "?f CHR '' '' \<in> set (map ?f (take 10 ts))" by (simp only: set_map) (rule imageI)
    then show False by (simp add: d blank_not_digit)
  qed
  have "map ?f ts ! 10 = ''0000-00-00 00:00:00'' ! 10" by (simp only: m)
  then have "?f (ts ! 10) = CHR '' ''" using len by simp
  then have b: "ts ! 10 = CHR '' ''" by (simp split: if_splits)
  from len have "ts = take 10 ts @ ts ! 10 # drop 11 ts"
    using id_take_nth_drop[of 10 ts] by simp
  then have "calendar_day ts = takeWhile (\<lambda>c. c \<noteq> CHR '' '') (take 10 ts @ CHR '' '' # drop 11 ts)"
    using b by (simp add: calendar_day_def)
  also have "\<dots> = take 10 ts @ takeWhile (\<lambda>c. c \<noteq> CHR '' '') (CHR '' '' # drop 11 ts)"
  proof (rule takeWhile_append2)
    fix x
    assume "x \<in> set (take 10 ts)"
    with nb show "x \<noteq> CHR '' ''" by blast
  qed
  also have "\<dots> = take 10 ts" by simp
  finally show ?thesis .
qed

lemma sqlite_date_well_dated: "well_dated ts \<Longrightarrow> sqlite_date ts = Some (calendar_day ts)"
  by (simp add: sqlite_date_def well_dated_def calendar_day_canonical)

lemma days_of_well_dated:
  assumes "list_all (\<lambda>r. well_dated (date_col r)) rows"
  shows "card ((\<lambda>r. sqlite_date (date_col r)) ` set rows)
       = card ((\<lambda>r. calendar_day (date_col r)) ` set rows)"
proof -
  from assms have "\<And>r. r \<in> set rows \<Longrightarrow> sqlite_date (date_col r) = Some (calendar_day (date_col r))"
    by (simp add: list_all_iff sqlite_date_well_dated)
  then have "(\<lambda>r. sqlite_date (date_col r)) ` set rows
           = Some ` ((\<lambda>r. calendar_day (date_col r)) ` set rows)"
    by (auto simp: image_iff)
  then show ?thesis by (simp add: card_image)
qed

text \<open>
  Claim C6, as the code has it. Over a table that has rows, query 10 is the mean of
  exactly the counts that query 2 lists: the count of all rows (query 5) divided by the
  number of groups of query 2. Rows whose timestamp \<^verbatim>\<open>date\<close> does not read have the
  key \<^verbatim>\<open>NULL\<close> and form one group. Where every stored timestamp is the canonical
  timestamp of a calendar date, the number of groups is the number of distinct calendar
  days present, and query 10 is the count of all rows divided by it.
\<close>

theorem average_per_day:
  assumes "rows \<noteq> []"
  shows "query10 sqlite_date rows = avg (map snd (query2 sqlite_date rows))
       \<and> sum_list (map snd (query2 sqlite_date rows)) = query5 rows
       \<and> query10 sqlite_date rows
           = Some (real (query5 rows) / real (length (query2 sqlite_date rows)))
       \<and> (list_all (\<lambda>r. well_dated (date_col r)) rows \<longrightarrow>
            query10 sqlite_date rows
              = Some (real (query5 rows) / real (card ((\<lambda>r. calendar_day (date_col r)) ` set rows))))"
proof -
  note g = avg_of_groups[OF assms, of sqlite_date]
  have "query10 sqlite_date rows
          = Some (real (query5 rows) / real (card ((\<lambda>r. calendar_day (date_col r)) ` set rows)))"
    if "list_all (\<lambda>r. well_dated (date_col r)) rows"
    using g(3) g(4) days_of_well_dated[OF that] by (simp only:)
  with g(1) g(2) g(3) show ?thesis by blast
qed

theorem average_per_day_witness:
  "three_rows \<noteq> []
   \<and> list_all (\<lambda>r. well_dated (date_col r)) three_rows
   \<and> query2 sqlite_date three_rows = [(Some ''2024-01-05'', 2), (Some ''2024-01-15'', 1)]
   \<and> query5 three_rows = 3
   \<and> card ((\<lambda>r. calendar_day (date_col r)) ` set three_rows) = 2
   \<and> query10 sqlite_date three_rows = Some (3 / 2)"
proof -
  have 1: "three_rows \<noteq> []" by (simp add: three_rows_def)
  have 2: "list_all (\<lambda>r. well_dated (date_col r)) three_rows" by code_simp
  have 3: "query2 sqlite_date three_rows = [(Some ''2024-01-05'', 2), (Some ''2024-01-15'', 1)]"
    by code_simp
  have 4: "query5 three_rows = 3" by code_simp
  have 5: "card ((\<lambda>r. calendar_day (date_col r)) ` set three_rows) = 2" by code_simp
  from average_per_day[OF 1] 2
  have "query10 sqlite_date three_rows
      = Some (real (query5 three_rows) / real (card ((\<lambda>r. calendar_day (date_col r)) ` set three_rows)))"
    by blast
  then have 6: "query10 sqlite_date three_rows = Some (3 / 2)" by (simp only: 4 5) simp
  from 1 2 3 4 5 6 show ?thesis by blast
qed

text \<open>
  Claim C6 as stated divides by the number of distinct calendar days for every table
  that has rows. Two rows with the timestamps \<^verbatim>\<open>5-01-05 09:08:07\<close> and
  \<^verbatim>\<open>999-12-31 23:59:59\<close> refute it: they lie on two calendar days, \<^verbatim>\<open>date\<close> reads
  neither, query 2 lists one group of two and query 10 is 2, not 2 / 2.
\<close>

theorem short_years_share_one_group:
  "short_year_rows \<noteq> []
   \<and> query5 short_year_rows = 2
   \<and> card ((\<lambda>r. calendar_day (date_col r)) ` set short_year_rows) = 2
   \<and> query2 sqlite_date short_year_rows = [(None, 2)]
   \<and> query10 sqlite_date short_year_rows = Some 2
   \<and> query10 sqlite_date short_year_rows
       \<noteq> Some (real (query5 short_year_rows)
                / real (card ((\<lambda>r. calendar_day (date_col r)) ` set short_year_rows)))"
proof -
  have 1: "short_year_rows \<noteq> []" by (simp add: short_year_rows_def)
  have 2: "query5 short_year_rows = 2" by code_simp
  have 3: "card ((\<lambda>r. calendar_day (date_col r)) ` set short_year_rows) = 2" by code_simp
  have 4: "query2 sqlite_date short_year_rows = [(None, 2)]" by code_simp
  have "query10 sqlite_date short_year_rows = avg (map snd (query2 sqlite_date short_year_rows))"
    by (simp add: query10_def query2_def)
  then have 5: "query10 sqlite_date short_year_rows = Some 2"
    by (simp only: 4) (simp add: avg_def)
  have 6: "query10 sqlite_date short_year_rows
       \<noteq> Some (real (query5 short_year_rows)
                / real (card ((\<lambda>r. calendar_day (date_col r)) ` set short_year_rows)))"
    by (simp only: 2 3 5) simp
  from 1 2 3 4 5 6 show ?thesis by blast
qed

text \<open>
  These are rows that the program itself writes: on a glibc platform, the extraction
  of a log with the years 0005 and 0999 gives exactly their senders and timestamps.
\<close>

lemma glibc_writes_short_years:
  "extract_and_transform Glibc
     [''mbox.txt'' \<mapsto> ''From a@b.c Mon Jan  5 09:08:07 0005'' @ [CHR 0x0A]
                          @ ''From d@e.f Fri Dec 31 23:59:59 0999'' @ [CHR 0x0A]] ''mbox.txt''
   = Inr (map (\<lambda>r. [(''email'', VStr (email_col r)), (''date'', VStr (date_col r))]) short_year_rows)"
  by code_simp

section \<open>Writing and transferring, once and twice\<close>

lemma extract_loop_records:
  "extract_loop p lines acc = Inr data \<Longrightarrow> \<exists>qs. data = acc @ map record_doc qs"
proof (induction lines arbitrary: acc)
  case Nil
  then have "data = acc @ map record_doc []" by simp
  then show ?case by blast
next
  case (Cons line lines)
  show ?case
  proof (cases "pattern_search line")
    case None
    with Cons show ?thesis by simp
  next
    case (Some m)
    obtain email date_str where m: "m = (email, date_str)" by (cases m)
    from Cons.prems Some m obtain date_obj where
      d: "parse_date date_str = Inr date_obj"
      and r: "extract_loop p lines
            (acc @ [record_doc (email, strftime p date_obj ''%Y-%m-%d %H:%M:%S'')]) = Inr data"
      by (auto simp: Let_def record_doc_def split: sum.splits)
    from Cons.IH[OF r] obtain qs where
      "data = (acc @ [record_doc (email, strftime p date_obj ''%Y-%m-%d %H:%M:%S'')]) @ map record_doc qs"
      by blast
    then have "data = acc @ map record_doc ((email, strftime p date_obj ''%Y-%m-%d %H:%M:%S'') # qs)"
      by simp
    then show ?thesis by blast
  qed
qed

lemma extracted_records:
  assumes "extract_and_transform p fs log_file = Inr data"
  shows "\<exists>qs. data = map record_doc qs"
  using assms extract_loop_records[of p _ "[]" data]
  by (auto simp: extract_and_transform_def split: option.splits)

lemma assign_ids_records: "assign_ids (map record_doc rs) n = (with_ids n rs, n + length rs)"
  by (induction rs arbitrary: n) (auto simp: record_doc_def)

lemma ids_with_ids_bound: "v \<in> set (ids_of (with_ids n rs)) \<Longrightarrow> \<exists>i\<ge>n. v = Some (VOid i)"
proof (induction rs arbitrary: n)
  case Nil
  then show ?case by (simp add: ids_of_def)
next
  case (Cons r rs)
  from Cons.prems have "v = Some (VOid n) \<or> v \<in> set (ids_of (with_ids (Suc n) rs))"
    by (auto simp: ids_of_def record_doc_def)
  then show ?case
  proof
    assume "v = Some (VOid n)"
    then show ?thesis by blast
  next
    assume "v \<in> set (ids_of (with_ids (Suc n) rs))"
    from Cons.IH[OF this] obtain i where "Suc n \<le> i" "v = Some (VOid i)" by blast
    then have "n \<le> i \<and> v = Some (VOid i)" by simp
    then show ?thesis by blast
  qed
qed

lemma distinct_ids_with_ids: "distinct (ids_of (with_ids n rs))"
proof (induction rs arbitrary: n)
  case Nil
  then show ?case by (simp add: ids_of_def)
next
  case (Cons r rs)
  have "Some (VOid n) \<notin> set (ids_of (with_ids (Suc n) rs))"
    using ids_with_ids_bound[of "Some (VOid n)" "Suc n" rs] by auto
  moreover have "ids_of (with_ids n (r # rs)) = Some (VOid n) # ids_of (with_ids (Suc n) rs)"
    by (simp add: ids_of_def record_doc_def)
  ultimately show ?case using Cons.IH[of "Suc n"] by simp
qed

lemma assign_ids_with_ids: "assign_ids (with_ids n rs) m = (with_ids n rs, m)"
  by (induction rs arbitrary: n) (auto simp: record_doc_def)

lemma storable_with_ids: "list_all storable (with_ids n rs)"
  by (induction rs arbitrary: n) (auto simp: record_doc_def storable_def)

lemma pairs_with_ids: "map pair_of (with_ids n rs) = rs"
  by (induction rs arbitrary: n) (auto simp: record_doc_def pair_of_def doc_text_def)

lemma with_ids_empty: "with_ids n rs = [] \<longleftrightarrow> rs = []"
  by (cases rs) auto

lemma bulk_insert_fresh:
  "distinct (ids_of ds) \<Longrightarrow> set (ids_of ds) \<inter> set (ids_of coll) = {} \<Longrightarrow>
   bulk_insert ds coll = (Inr (), coll @ ds)"
proof (induction ds arbitrary: coll)
  case Nil
  then show ?case by simp
next
  case (Cons d ds)
  from Cons.prems have 1: "map_of d ''_id'' \<notin> set (ids_of coll)" "distinct (ids_of ds)"
    "set (ids_of ds) \<inter> set (ids_of (coll @ [d])) = {}"
    by (auto simp: ids_of_def)
  from 1(1) Cons.IH[OF 1(2) 1(3)] show ?case by (simp add: ids_of_def)
qed

lemma save_empty: "save_to_mongodb [] w = (Inl TypeError, w\<lparr>collection := []\<rparr>)"
  by (simp add: save_to_mongodb_def insert_many_def delete_many_def)

lemma save_ok:
  assumes "data \<noteq> []" "assign_ids data (next_oid w) = (data', n')" "distinct (ids_of data')"
  shows "save_to_mongodb data w =
     (Inr data', print (Line ''Data successfully inserted into MongoDB.'')
                   (w\<lparr>collection := data', next_oid := n'\<rparr>))"
proof -
  have "bulk_insert data' [] = (Inr (), data')"
    using bulk_insert_fresh[OF assms(3), of "[]"] by (simp add: ids_of_def)
  with assms(1,2) show ?thesis
    by (simp add: save_to_mongodb_def insert_many_def delete_many_def)
qed

lemma table_pairs_transfer:
  assumes "list_all storable (collection w)"
  shows "table_pairs (snd (transfer_to_sqlite w)) = map pair_of (collection w)"
    and "fst (transfer_to_sqlite w) = Inr ()"
  by (simp_all add: transfer_storable[OF assms] table_pairs_def table_rows_def print_def pairs_new_rows)

lemma store_and_transfer_ok:
  assumes "data \<noteq> []" "assign_ids data (next_oid w) = (data', n')" "distinct (ids_of data')"
    "list_all storable data'"
  shows "fst (store_and_transfer data w) = Inr data'"
    and "table_pairs (snd (store_and_transfer data w)) = map pair_of data'"
proof -
  let ?w1 = "print (Line ''Data successfully inserted into MongoDB.'')
               (w\<lparr>collection := data', next_oid := n'\<rparr>)"
  have c: "collection ?w1 = data'" by (simp add: print_def)
  with assms(4) have s: "list_all storable (collection ?w1)" by simp
  have sv: "save_to_mongodb data w = (Inr data', ?w1)"
    by (rule save_ok[OF assms(1,2,3)])
  obtain r2 w2 where t: "transfer_to_sqlite ?w1 = (r2, w2)" by (cases "transfer_to_sqlite ?w1")
  from table_pairs_transfer[OF s] t c have "r2 = Inr ()" "table_pairs w2 = map pair_of data'"
    by simp_all
  with sv t show "fst (store_and_transfer data w) = Inr data'"
    and "table_pairs (snd (store_and_transfer data w)) = map pair_of data'"
    by (simp_all add: store_and_transfer_def)
qed

lemma store_and_transfer_empty:
  "store_and_transfer [] w = (Inl TypeError, w\<lparr>collection := []\<rparr>)"
  by (simp add: store_and_transfer_def save_empty)

lemma store_records:
  assumes "rs \<noteq> []"
  shows "fst (store_and_transfer (map record_doc rs) w) = Inr (with_ids (next_oid w) rs)"
    and "table_pairs (snd (store_and_transfer (map record_doc rs) w)) = rs"
  using store_and_transfer_ok[OF _ assign_ids_records distinct_ids_with_ids storable_with_ids,
      of rs w] assms
  by (simp_all add: pairs_with_ids)

lemma store_identified:
  assumes "rs \<noteq> []"
  shows "table_pairs (snd (store_and_transfer (with_ids n rs) w)) = rs"
  using store_and_transfer_ok(2)[OF _ assign_ids_with_ids distinct_ids_with_ids storable_with_ids,
      of n rs w] assms
  by (simp add: pairs_with_ids with_ids_empty)

text \<open>
  Claim C7. For the records of an extraction, writing and transferring a second time
  leaves a table with the same multiset of sender and timestamp pairs, and the same
  number of rows, as the first time. This holds when the second run starts from the
  same records and when, within one process, it starts from the same dictionaries,
  which then carry the identifiers of the first run. The row identifiers are not
  compared: the counter goes on.
\<close>

theorem store_and_transfer_twice:
  assumes "extract_and_transform p fs log_file = Inr data"
  shows "mset (table_pairs (snd (store_and_transfer data (snd (store_and_transfer data w)))))
           = mset (table_pairs (snd (store_and_transfer data w)))
       \<and> length (table_rows (snd (store_and_transfer data (snd (store_and_transfer data w)))))
           = length (table_rows (snd (store_and_transfer data w)))
       \<and> (\<forall>data'. fst (store_and_transfer data w) = Inr data' \<longrightarrow>
            mset (table_pairs (snd (store_and_transfer data' (snd (store_and_transfer data w)))))
              = mset (table_pairs (snd (store_and_transfer data w)))
            \<and> length (table_rows (snd (store_and_transfer data' (snd (store_and_transfer data w)))))
              = length (table_rows (snd (store_and_transfer data w))))"
proof -
  from extracted_records[OF assms] obtain rs where data: "data = map record_doc rs" by blast
  have len: "\<And>u v. table_pairs u = table_pairs v \<Longrightarrow> length (table_rows u) = length (table_rows v)"
    by (metis length_map table_pairs_def)
  show ?thesis
  proof (cases "rs = []")
    case True
    with data show ?thesis
      by (simp add: store_and_transfer_empty table_pairs_def table_rows_def)
  next
    case False
    let ?w1 = "snd (store_and_transfer data w)"
    have 1: "table_pairs ?w1 = rs" using store_records(2)[OF False] data by simp
    have 2: "table_pairs (snd (store_and_transfer data ?w1)) = rs"
      using store_records(2)[OF False] data by simp
    have 3: "fst (store_and_transfer data w) = Inr (with_ids (next_oid w) rs)"
      using store_records(1)[OF False] data by simp
    have 4: "table_pairs (snd (store_and_transfer (with_ids (next_oid w) rs) ?w1)) = rs"
      by (rule store_identified[OF False])
    from 1 2 3 4 show ?thesis by (auto intro: len)
  qed
qed

theorem store_and_transfer_twice_witness:
  "extract_and_transform Glibc [''mbox.txt'' \<mapsto> two_line_log] ''mbox.txt'' = Inr sample_data
   \<and> mset (table_pairs (snd (store_and_transfer sample_data (snd (store_and_transfer sample_data used_world)))))
       = mset (table_pairs (snd (store_and_transfer sample_data used_world)))
   \<and> length (table_rows (snd (store_and_transfer sample_data (snd (store_and_transfer sample_data used_world)))))
       = length (table_rows (snd (store_and_transfer sample_data used_world)))
   \<and> map id_col (table_rows (snd (store_and_transfer sample_data used_world))) = [2, 3]
   \<and> map id_col (table_rows (snd (store_and_transfer sample_data (snd (store_and_transfer sample_data used_world)))))
       = [4, 5]"
proof -
  have 1: "extract_and_transform Glibc [''mbox.txt'' \<mapsto> two_line_log] ''mbox.txt'' = Inr sample_data"
    by code_simp
  have 2: "map id_col (table_rows (snd (store_and_transfer sample_data used_world))) = [2, 3]"
    by code_simp
  have 3: "map id_col (table_rows (snd (store_and_transfer sample_data (snd (store_and_transfer sample_data used_world)))))
       = [4, 5]"
    by code_simp
  from store_and_transfer_twice[OF 1, of used_world] 1 2 3 show ?thesis by blast
qed

section \<open>The domain of a sender\<close>

lemma instr_at_found:
  "CHR ''@'' \<in> set x \<Longrightarrow> instr_at n x ''@'' = n + length (takeWhile (\<lambda>c. c \<noteq> CHR ''@'') x)"
  by (induction x arbitrary: n) auto

lemma skip_chars_drop: "CHR 0x00 \<notin> set x \<Longrightarrow> skip_chars k x = drop k x"
  by (induction k x rule: skip_chars.induct) auto

lemma domain_after_first_at:
  assumes "CHR ''@'' \<in> set e" "CHR 0x00 \<notin> set e"
  shows "domain e = after_first_at e"
proof -
  let ?k = "length (takeWhile (\<lambda>c. c \<noteq> CHR ''@'') e)"
  have "instr e ''@'' + 1 - 1 = Suc ?k"
    using instr_at_found[OF assms(1), of 1] by (simp add: instr_def)
  then have "domain e = takeWhile (\<lambda>c. c \<noteq> CHR 0x00) (drop (Suc ?k) e)"
    using assms(2) by (simp add: domain_def substr_def skip_chars_drop)
  also have "\<dots> = drop (Suc ?k) e"
    using assms(2) by (auto simp: takeWhile_eq_all_conv dest: in_set_dropD)
  also have "\<dots> = after_first_at e"
    by (simp add: after_first_at_def dropWhile_eq_drop drop_Suc tl_drop)
  finally show ?thesis .
qed

text \<open>
  Claim C8, as the code has it. For rows whose sender contains \<^verbatim>\<open>@\<close> and no NUL
  character, the domain that query 4 computes is the part of the sender strictly after
  the first \<^verbatim>\<open>@\<close>, and query 4 groups and counts the rows by that part.
\<close>

theorem domain_of_sender:
  assumes "list_all (\<lambda>r. CHR ''@'' \<in> set (email_col r) \<and> CHR 0x00 \<notin> set (email_col r)) rows"
  shows "list_all (\<lambda>r. domain (email_col r) = after_first_at (email_col r)) rows
       \<and> query4 rows = group_counts (\<lambda>r. after_first_at (email_col r)) rows"
proof -
  from assms have 1: "\<And>r. r \<in> set rows \<Longrightarrow> domain (email_col r) = after_first_at (email_col r)"
    by (simp add: list_all_iff domain_after_first_at)
  then have m: "map (\<lambda>r. domain (email_col r)) rows = map (\<lambda>r. after_first_at (email_col r)) rows"
    by simp
  have f: "\<And>k. filter (\<lambda>r. domain (email_col r) = k) rows
                    = filter (\<lambda>r. after_first_at (email_col r) = k) rows"
    using 1 by (auto intro: filter_cong)
  have "query4 rows = group_counts (\<lambda>r. after_first_at (email_col r)) rows"
    unfolding query4_def group_counts_def m f ..
  with 1 show ?thesis by (simp add: list_all_iff)
qed

theorem domain_of_sender_witness:
  "list_all (\<lambda>r. CHR ''@'' \<in> set (email_col r) \<and> CHR 0x00 \<notin> set (email_col r)) three_rows
   \<and> map (\<lambda>r. domain (email_col r)) three_rows = [''example.com'', ''example.com'', ''test.org'']
   \<and> query4 three_rows = [(''example.com'', 2), (''test.org'', 1)]
   \<and> group_counts (\<lambda>r. after_first_at (email_col r)) three_rows = [(''example.com'', 2), (''test.org'', 1)]"
proof -
  have 1: "list_all (\<lambda>r. CHR ''@'' \<in> set (email_col r) \<and> CHR 0x00 \<notin> set (email_col r)) three_rows"
    by code_simp
  have 2: "group_counts (\<lambda>r. after_first_at (email_col r)) three_rows = [(''example.com'', 2), (''test.org'', 1)]"
    by code_simp
  have 3: "map (\<lambda>r. domain (email_col r)) three_rows = [''example.com'', ''example.com'', ''test.org'']"
    by code_simp
  from domain_of_sender[OF 1] 1 2 3 show ?thesis by simp
qed

text \<open>
  Claim C8 as stated covers every sender with an \<^verbatim>\<open>@\<close>. A NUL character in the sender
  refutes it: \<^verbatim>\<open>substr\<close> stops there, so the domain of \<^verbatim>\<open>a\\0b@c\<close> is empty, not
  \<^verbatim>\<open>c\<close>.
\<close>

theorem nul_cuts_domain:
  "CHR ''@'' \<in> set [CHR ''a'', CHR 0x00, CHR ''b'', CHR ''@'', CHR ''c'']
   \<and> domain [CHR ''a'', CHR 0x00, CHR ''b'', CHR ''@'', CHR ''c''] = []
   \<and> after_first_at [CHR ''a'', CHR 0x00, CHR ''b'', CHR ''@'', CHR ''c''] = ''c''
   \<and> domain [CHR ''a'', CHR 0x00, CHR ''b'', CHR ''@'', CHR ''c'']
       \<noteq> after_first_at [CHR ''a'', CHR 0x00, CHR ''b'', CHR ''@'', CHR ''c'']"
  by code_simp

section \<open>The loop over the queries\<close>

lemma print_rows_stdout: "print_rows rows w = w\<lparr>stdout := stdout w @ map Row rows\<rparr>"
  by (induction rows arbitrary: w) (simp_all add: print_def)

lemma query_loop_stdout:
  "query_loop execute qs w = w\<lparr>stdout := stdout w @ concat (map (query_section execute) qs)\<rparr>"
proof (induction qs arbitrary: w)
  case Nil
  then show ?case by simp
next
  case (Cons q qs)
  obtain desc query where q: "q = (desc, query)" by (cases q)
  show ?case
    by (cases "execute query")
       (simp_all add: q Cons.IH query_section_def print_def print_rows_stdout Let_def)
qed

text \<open>
  Claim C9. When the database raises on one of the ten statements, the run still
  returns normally; the output has, in the declared order, the section of every one of
  the ten queries, each made from the answer to its own statement alone; the section of
  the failing query is its label and the message of the exception.
\<close>

theorem query_failure_is_local:
  assumes "k < length queries" and "execute (snd (queries ! k)) = Inl e"
  shows "fst (run_sql_queries execute w) = Inr ()
       \<and> stdout (snd (run_sql_queries execute w))
           = stdout w @ Line ([CHR 0x0A] @ ''SQL Query Results:'')
               # concat (map (query_section execute) queries)
       \<and> query_section execute (queries ! k)
           = [Line ([CHR 0x0A] @ fst (queries ! k) @ '':''), Line (''Error executing query: '' @ e)]
       \<and> length queries = 10
       \<and> table (snd (run_sql_queries execute w)) = table w"
  using assms(2)
  by (simp add: run_sql_queries_def query_loop_stdout print_def query_section_def)
     (simp add: queries_def)

theorem query_failure_is_local_witness:
  "2 < length queries
   \<and> locked_at_third (snd (queries ! 2)) = Inl ''database is locked''
   \<and> fst (run_sql_queries locked_at_third used_world) = Inr ()
   \<and> stdout (snd (run_sql_queries locked_at_third used_world))
       = [Line ([CHR 0x0A] @ ''SQL Query Results:''),
          Line ([CHR 0x0A] @ ''1. Unique Emails:''), Row [SInt 1],
          Line ([CHR 0x0A] @ ''2. Emails per Day:''), Row [SInt 1],
          Line ([CHR 0x0A] @ ''3. First and Last Email per User:''),
          Line ''Error executing query: database is locked'',
          Line ([CHR 0x0A] @ ''4. Emails per Domain:''), Row [SInt 1],
          Line ([CHR 0x0A] @ ''5. Total Number of Emails:''), Row [SInt 1],
          Line ([CHR 0x0A] @ ''6. Emails Count by Month:''), Row [SInt 1],
          Line ([CHR 0x0A] @ ''7. Email Frequency Ranking:''), Row [SInt 1],
          Line ([CHR 0x0A] @ ''8. Most Active Day:''), Row [SInt 1],
          Line ([CHR 0x0A] @ ''9. Emails by Day of Week:''), Row [SInt 1],
          Line ([CHR 0x0A] @ ''10. Average Emails per Day:''), Row [SInt 1]]"
proof -
  have 1: "2 < length queries" by (simp add: queries_def)
  have 2: "locked_at_third (snd (queries ! 2)) = Inl ''database is locked''"
    by (simp add: locked_at_third_def)
  have 3: "stdout used_world @ Line ([CHR 0x0A] @ ''SQL Query Results:'')
               # concat (map (query_section locked_at_third) queries)
       = [Line ([CHR 0x0A] @ ''SQL Query Results:''),
          Line ([CHR 0x0A] @ ''1. Unique Emails:''), Row [SInt 1],
          Line ([CHR 0x0A] @ ''2. Emails per Day:''), Row [SInt 1],
          Line ([CHR 0x0A] @ ''3. First and Last Email per User:''),
          Line ''Error executing query: database is locked'',
          Line ([CHR 0x0A] @ ''4. Emails per Domain:''), Row [SInt 1],
          Line ([CHR 0x0A] @ ''5. Total Number of Emails:''), Row [SInt 1],
          Line ([CHR 0x0A] @ ''6. Emails Count by Month:''), Row [SInt 1],
          Line ([CHR 0x0A] @ ''7. Email Frequency Ranking:''), Row [SInt 1],
          Line ([CHR 0x0A] @ ''8. Most Active Day:''), Row [SInt 1],
          Line ([CHR 0x0A] @ ''9. Emails by Day of Week:''), Row [SInt 1],
          Line ([CHR 0x0A] @ ''10. Average Emails per Day:''), Row [SInt 1]]"
    by code_simp
  from query_failure_is_local[where execute = locked_at_third and k = 2 and w = used_world, OF 1 2] 1 2 3
  show ?thesis by simp
qed

section \<open>A log without a sender line\<close>

lemma extract_loop_no_match:
  "list_all (\<lambda>line. pattern_search line = None) lines \<Longrightarrow> extract_loop p lines acc = Inr acc"
  by (induction lines arbitrary: acc) auto

text \<open>
  Claim C10. When no line of \<^verbatim>\<open>mbox.txt\<close> matches the pattern, the extraction
  returns the empty list, \<^verbatim>\<open>insert_many\<close> refuses it and the run ends with
  \<^verbatim>\<open>TypeError\<close> inside \<^verbatim>\<open>save_to_mongodb\<close>: the collection has been emptied by
  \<^verbatim>\<open>delete_many\<close>, the table has not been touched, and nothing is printed after
  the announcement of the save.
\<close>

theorem empty_extraction_aborts:
  assumes "files w ''mbox.txt'' = Some content"
    and "list_all (\<lambda>line. pattern_search line = None) (file_lines content)"
  shows "fst (mainflow p engine w) = Inl TypeError
       \<and> collection (snd (mainflow p engine w)) = []
       \<and> table (snd (mainflow p engine w)) = table w
       \<and> seq (snd (mainflow p engine w)) = seq w
       \<and> stdout (snd (mainflow p engine w))
           = stdout w @ [Line ''Extracting and transforming data from the log file...'',
                         Line ''Extracted 0 records.'',
                         Line ([CHR 0x0A] @ ''Saving data to MongoDB...'')]"
proof -
  have "extract_and_transform p (files w) ''mbox.txt'' = Inr []"
    using assms by (simp add: extract_and_transform_def extract_loop_no_match)
  moreover have "show_nat 0 = ''0''" by code_simp
  ultimately show ?thesis
    by (simp add: mainflow_def Let_def print_def save_to_mongodb_def insert_many_def delete_many_def)
qed

theorem empty_extraction_aborts_witness:
  "files no_from_world ''mbox.txt'' = Some (''Subject: hello'' @ [CHR 0x0A] @ ''no sender here'' @ [CHR 0x0A])
   \<and> list_all (\<lambda>line. pattern_search line = None)
        (file_lines (''Subject: hello'' @ [CHR 0x0A] @ ''no sender here'' @ [CHR 0x0A]))
   \<and> fst (mainflow Glibc (\<lambda>t q. Inr []) no_from_world) = Inl TypeError
   \<and> collection no_from_world = two_docs
   \<and> collection (snd (mainflow Glibc (\<lambda>t q. Inr []) no_from_world)) = []
   \<and> table (snd (mainflow Glibc (\<lambda>t q. Inr []) no_from_world)) = table no_from_world"
proof -
  have 1: "files no_from_world ''mbox.txt''
      = Some (''Subject: hello'' @ [CHR 0x0A] @ ''no sender here'' @ [CHR 0x0A])"
    by (simp add: no_from_world_def)
  have 2: "list_all (\<lambda>line. pattern_search line = None)
        (file_lines (''Subject: hello'' @ [CHR 0x0A] @ ''no sender here'' @ [CHR 0x0A]))"
    by code_simp
  have 3: "collection no_from_world = two_docs" by (simp add: no_from_world_def)
  from empty_extraction_aborts[OF 1 2, of Glibc "\<lambda>t q. Inr []"] 1 2 3 show ?thesis by simp
qed

end
